theory Spec2Isabelle
  imports Main "HOL-Library.Word" "HOL-Library.Multiset"
begin

unbundle bit_operations_syntax

section \<open>JavaScript values\<close>

text \<open>
  The detail view of \<^verbatim>\<open>src/app/routes/resume.tsx\<close> receives payloads of type
  \<^verbatim>\<open>any\<close> from the file store and turns them into Blobs. A JavaScript string is a
  sequence of 16-bit code units, a byte is an 8-bit word, a number is an IEEE 754 double
  (kept as its 64-bit pattern, which is all that truthiness needs).
\<close>

type_synonym code_unit = "16 word"
type_synonym jsstring = "code_unit list"
type_synonym byte = "8 word"

definition lit :: "string \<Rightarrow> jsstring" where
  "lit s = map of_char s"

text \<open>A Blob: its bytes and its \<^verbatim>\<open>type\<close> attribute.\<close>

record blob =
  content :: "byte list"
  type :: jsstring

text \<open>A thrown value: an Error object with its \<^verbatim>\<open>name\<close> and \<^verbatim>\<open>message\<close>.\<close>

datatype exn = JSError (name: jsstring) (message: jsstring)

text \<open>
  The payload universe. \<open>JArrayBuffer\<close> is an ArrayBuffer that holds its bytes and
  \<open>JView buf off len\<close> a typed array or DataView over such a buffer \<open>buf\<close> with
  \<^verbatim>\<open>byteOffset\<close> \<open>off\<close> and \<^verbatim>\<open>byteLength\<close> \<open>len\<close>. \<open>JDetachedBuffer\<close> is an ArrayBuffer
  whose bytes have been transferred away and \<open>JDetachedView\<close> a view over one;
  \<open>JSharedView\<close> is a view over a SharedArrayBuffer. \<open>JProxy e\<close> is a Proxy object on which
  every operation throws \<open>e\<close>: a revoked Proxy, with a TypeError, or one whose handler
  throws from its traps. \<open>JExotic\<close> stands for the remaining objects (functions, symbols,
  class instances, cyclic structures, a SharedArrayBuffer itself), told apart by a tag.
\<close>

datatype jsval =
    JUndefined
  | JNull
  | JBoolean bool
  | JNumber "64 word"
  | JBigInt int
  | JString jsstring
  | JBlob blob
  | JArrayBuffer "byte list"
  | JView (buffer: "byte list") (byteOffset: nat) (byteLength: nat)
  | JArray "jsval list"
  | JObject "(jsstring \<times> jsval) list"
  | JExotic nat
  | JDetachedBuffer
  | JDetachedView
  | JSharedView "byte list" nat nat
  | JProxy exn

text \<open>The bytes a view itself covers.\<close>

definition view_bytes :: "byte list \<Rightarrow> nat \<Rightarrow> nat \<Rightarrow> byte list" where
  "view_bytes buf off len = take len (drop off buf)"

text \<open>
  A double is \<open>\<plusminus>0\<close> when all bits but the sign are clear, and NaN when the exponent is
  all ones and the fraction is not zero.
\<close>

definition is_zero :: "64 word \<Rightarrow> bool" where
  "is_zero w = (w AND 0x7FFFFFFFFFFFFFFF = 0)"

definition is_nan :: "64 word \<Rightarrow> bool" where
  "is_nan w = (w AND 0x7FF0000000000000 = 0x7FF0000000000000 \<and> w AND 0x000FFFFFFFFFFFFF \<noteq> 0)"

text \<open>ToBoolean: what \<^verbatim>\<open>!data\<close> negates.\<close>

fun truthy :: "jsval \<Rightarrow> bool" where
  "truthy JUndefined = False"
| "truthy JNull = False"
| "truthy (JBoolean b) = b"
| "truthy (JNumber w) = (\<not> is_zero w \<and> \<not> is_nan w)"
| "truthy (JBigInt i) = (i \<noteq> 0)"
| "truthy (JString s) = (s \<noteq> [])"
| "truthy (JBlob b) = True"
| "truthy (JArrayBuffer bs) = True"
| "truthy (JView buf off len) = True"
| "truthy (JArray vs) = True"
| "truthy (JObject kvs) = True"
| "truthy (JExotic n) = True"
| "truthy JDetachedBuffer = True"
| "truthy JDetachedView = True"
| "truthy (JSharedView buf off len) = True"
| "truthy (JProxy e) = True"

section \<open>Platform functions used by the view\<close>

subsection \<open>String.prototype.includes and String.prototype.split\<close>

fun includes_str :: "jsstring \<Rightarrow> jsstring \<Rightarrow> bool" where
  "includes_str [] p = (p = [])"
| "includes_str (c # cs) p = (take (length p) (c # cs) = p \<or> includes_str cs p)"

text \<open>
  \<open>split_from sep piece s\<close> scans \<open>s\<close> from the left with the current piece \<open>piece\<close>: at an
  occurrence of the (non-empty) separator the piece is closed and the scan goes on behind
  the occurrence.
\<close>

function split_from :: "jsstring \<Rightarrow> jsstring \<Rightarrow> jsstring \<Rightarrow> jsstring list" where
  "split_from sep piece s =
     (if s = [] then [piece]
      else if sep \<noteq> [] \<and> take (length sep) s = sep
        then piece # split_from sep [] (drop (length sep) s)
      else split_from sep (piece @ [hd s]) (tl s))"
  by pat_completeness auto
termination
  by (relation "measure (\<lambda>(sep, piece, s). length s)") auto

declare split_from.simps [simp del]

definition split :: "jsstring \<Rightarrow> jsstring \<Rightarrow> jsstring list" where
  "split s sep = (if sep = [] then map (\<lambda>c. [c]) s else split_from sep [] s)"

text \<open>
  Reading an array element: out of range gives \<^verbatim>\<open>undefined\<close>, which a string
  parameter such as that of \<^verbatim>\<open>atob\<close> turns into the text \<^verbatim>\<open>"undefined"\<close>.
\<close>

definition element_as_string :: "jsstring list \<Rightarrow> nat \<Rightarrow> jsstring" where
  "element_as_string xs i = (if i < length xs then xs ! i else lit ''undefined'')"

subsection \<open>atob: forgiving-base64 decode\<close>

definition is_ascii_whitespace :: "code_unit \<Rightarrow> bool" where
  "is_ascii_whitespace c = (c = 0x09 \<or> c = 0x0A \<or> c = 0x0C \<or> c = 0x0D \<or> c = 0x20)"

definition base64_value :: "code_unit \<Rightarrow> nat option" where
  "base64_value c =
     (let n = unat c in
      if 65 \<le> n \<and> n \<le> 90 then Some (n - 65)
      else if 97 \<le> n \<and> n \<le> 122 then Some (n - 71)
      else if 48 \<le> n \<and> n \<le> 57 then Some (n + 4)
      else if n = 43 then Some 62
      else if n = 47 then Some 63
      else None)"

text \<open>
  If the length is a multiple of four, one or two trailing \<^verbatim>\<open>=\<close> are removed.
\<close>

definition strip_padding :: "jsstring \<Rightarrow> jsstring" where
  "strip_padding d =
     (if length d mod 4 = 0 \<and> d \<noteq> [] \<and> last d = 0x3D
      then (if last (butlast d) = 0x3D then butlast (butlast d) else butlast d)
      else d)"

text \<open>
  Four sextets give three bytes; of a rest of three sextets (18 bits) the last two bits are
  dropped, of a rest of two sextets (12 bits) the last four.
\<close>

fun sextets_to_bytes :: "nat list \<Rightarrow> byte list" where
  "sextets_to_bytes (a # b # c # d # rest) =
     of_nat (a * 4 + b div 16) # of_nat ((b mod 16) * 16 + c div 4) # of_nat ((c mod 4) * 64 + d)
       # sextets_to_bytes rest"
| "sextets_to_bytes [a, b, c] = [of_nat (a * 4 + b div 16), of_nat ((b mod 16) * 16 + c div 4)]"
| "sextets_to_bytes [a, b] = [of_nat (a * 4 + b div 16)]"
| "sextets_to_bytes _ = []"

text \<open>
  The decoder of the Infra standard. It counts code points where this model counts code
  units; the two differ only on strings with surrogate pairs, which fail in either case
  because a surrogate is not in the alphabet.
\<close>

definition forgiving_base64_decode :: "jsstring \<Rightarrow> byte list option" where
  "forgiving_base64_decode s =
     (let d = strip_padding (filter (\<lambda>c. \<not> is_ascii_whitespace c) s) in
      if length d mod 4 = 1 then None
      else if list_ex (\<lambda>c. base64_value c = None) d then None
      else Some (sextets_to_bytes (map (\<lambda>c. the (base64_value c)) d)))"

definition atob :: "jsstring \<Rightarrow> exn + jsstring" where
  "atob s =
     (case forgiving_base64_decode s of
        None \<Rightarrow> Inl (JSError (lit ''InvalidCharacterError'')
                  (lit ''The string to be decoded is not correctly encoded.''))
      | Some bs \<Rightarrow> Inr (map ucast bs))"

subsection \<open>The Blob constructor\<close>

text \<open>
  A string part is converted to scalar values (a lone surrogate becomes U+FFFD) and encoded
  as UTF-8.
\<close>

definition is_high_surrogate :: "code_unit \<Rightarrow> bool" where
  "is_high_surrogate c = (0xD800 \<le> c \<and> c \<le> 0xDBFF)"

definition is_low_surrogate :: "code_unit \<Rightarrow> bool" where
  "is_low_surrogate c = (0xDC00 \<le> c \<and> c \<le> 0xDFFF)"

definition lone_scalar :: "code_unit \<Rightarrow> nat" where
  "lone_scalar c = (if is_high_surrogate c \<or> is_low_surrogate c then 0xFFFD else unat c)"

fun scalar_values :: "jsstring \<Rightarrow> nat list" where
  "scalar_values [] = []"
| "scalar_values [c] = [lone_scalar c]"
| "scalar_values (c # d # cs) =
     (if is_high_surrogate c \<and> is_low_surrogate d
      then (0x10000 + (unat c - 0xD800) * 0x400 + (unat d - 0xDC00)) # scalar_values cs
      else lone_scalar c # scalar_values (d # cs))"

definition utf8_scalar :: "nat \<Rightarrow> byte list" where
  "utf8_scalar n =
     (if n < 0x80 then [of_nat n]
      else if n < 0x800 then [of_nat (0xC0 + n div 64), of_nat (0x80 + n mod 64)]
      else if n < 0x10000 then
        [of_nat (0xE0 + n div 4096), of_nat (0x80 + (n div 64) mod 64), of_nat (0x80 + n mod 64)]
      else
        [of_nat (0xF0 + n div 262144), of_nat (0x80 + (n div 4096) mod 64),
         of_nat (0x80 + (n div 64) mod 64), of_nat (0x80 + n mod 64)])"

definition utf8_encode :: "jsstring \<Rightarrow> byte list" where
  "utf8_encode s = concat (map utf8_scalar (scalar_values s))"

datatype blob_part =
    PartBuffer "byte list"
  | PartView "byte list" nat nat
  | PartString jsstring
  | PartBlob blob

fun part_bytes :: "blob_part \<Rightarrow> byte list" where
  "part_bytes (PartBuffer bs) = bs"
| "part_bytes (PartView buf off len) = view_bytes buf off len"
| "part_bytes (PartString s) = utf8_encode s"
| "part_bytes (PartBlob b) = content b"

text \<open>
  The \<^verbatim>\<open>type\<close> option: a value with a character outside U+0020 .. U+007E gives the
  empty type, any other value is converted to ASCII lower case.
\<close>

definition ascii_lowercase :: "code_unit \<Rightarrow> code_unit" where
  "ascii_lowercase c = (if 0x41 \<le> c \<and> c \<le> 0x5A then c + 0x20 else c)"

definition normalize_type :: "jsstring \<Rightarrow> jsstring" where
  "normalize_type t =
     (if list_all (\<lambda>c. 0x20 \<le> c \<and> c \<le> 0x7E) t then map ascii_lowercase t else [])"

definition new_Blob :: "blob_part list \<Rightarrow> jsstring \<Rightarrow> blob" where
  "new_Blob parts t = \<lparr>content = concat (map part_bytes parts), type = normalize_type t\<rparr>"

subsection \<open>What the model takes from its environment\<close>

text \<open>
  \<^verbatim>\<open>JSON.stringify\<close> and \<^verbatim>\<open>JSON.parse\<close>, the key-value store, the file store and the
  object-URL registry are not part of the repository. They are parameters: each call
  returns a value or throws. \<^verbatim>\<open>JSON.stringify\<close> returns a string or \<^verbatim>\<open>undefined\<close>;
  \<open>url_suffix k\<close> is what follows \<^verbatim>\<open>blob:\<close> in the k-th object URL the registry issues;
  \<open>revoke_error u\<close> is the exception, if any, that revoking \<open>u\<close> throws. Platforms differ
  on a Blob part that is a detached or a shared buffer: \<open>reject_buffer\<close> gives the
  exception the Blob constructor throws for it, or \<open>None\<close> when the constructor takes the
  buffer (a detached buffer then counts as empty).
\<close>

datatype odd_buffer = Detached | Shared

record platform =
  JSON_stringify :: "jsval \<Rightarrow> exn + jsstring option"
  JSON_parse :: "jsval \<Rightarrow> exn + jsval"
  kv_get :: "jsstring \<Rightarrow> exn + jsval"
  fs_read :: "jsval \<Rightarrow> exn + jsval"
  url_suffix :: "nat \<Rightarrow> jsstring"
  revoke_error :: "jsstring \<Rightarrow> exn option"
  reject_buffer :: "odd_buffer \<Rightarrow> exn option"

section \<open>makeBlobFromPossible\<close>

datatype diagnostic =
    ConsoleWarn jsstring "exn option"
  | ConsoleError jsstring exn
  | ConsoleLog jsstring jsstring jsval

text \<open>
  The loop \<^verbatim>\<open>for (let i = 0; i < len; i++) bytes[i] = binary.charCodeAt(i)\<close>: a store
  into a \<^verbatim>\<open>Uint8Array\<close> keeps the low eight bits.
\<close>

function fill_bytes :: "jsstring \<Rightarrow> nat \<Rightarrow> byte list \<Rightarrow> byte list" where
  "fill_bytes binary i bytes =
     (if i < length binary then fill_bytes binary (Suc i) (bytes[i := ucast (binary ! i)])
      else bytes)"
  by pat_completeness auto
termination
  by (relation "measure (\<lambda>(binary, i, bytes). length binary - i)") auto

declare fill_bytes.simps [simp del]

text \<open>
  The string branch: the text handed to \<^verbatim>\<open>atob\<close>, and the body of the \<^verbatim>\<open>try\<close>
  block.
\<close>

definition base64_text :: "jsstring \<Rightarrow> jsstring" where
  "base64_text data =
     (if includes_str data (lit ''base64,'')
      then element_as_string (split data (lit ''base64,'')) 1 else data)"

definition decode_string :: "jsstring \<Rightarrow> jsstring \<Rightarrow> exn + blob" where
  "decode_string data fallbackMime =
     (let base64 = base64_text data
      in case atob base64 of
           Inl e \<Rightarrow> Inl e
         | Inr binary \<Rightarrow>
             (let len = length binary;
                  bytes = fill_bytes binary 0 (replicate len 0)
              in Inr (new_Blob [PartView bytes 0 len] fallbackMime)))"

text \<open>The body of the last \<^verbatim>\<open>try\<close> block.\<close>

definition stringify_blob :: "platform \<Rightarrow> jsval \<Rightarrow> jsstring \<Rightarrow> exn + blob" where
  "stringify_blob P data fallbackMime =
     (case JSON_stringify P data of
        Inl e \<Rightarrow> Inl e
      | Inr None \<Rightarrow> Inr (new_Blob [PartString (lit ''undefined'')] fallbackMime)
      | Inr (Some s) \<Rightarrow> Inr (new_Blob [PartString s] fallbackMime))"

text \<open>
  \<^verbatim>\<open>new Blob([buffer], { type: fallbackMime })\<close> for a detached or shared buffer with the
  bytes \<open>bs\<close>: the exception of the platform, or the Blob.
\<close>

definition blob_of_odd_buffer ::
  "platform \<Rightarrow> odd_buffer \<Rightarrow> byte list \<Rightarrow> jsstring \<Rightarrow> exn + blob option" where
  "blob_of_odd_buffer P k bs fallbackMime =
     (case reject_buffer P k of
        Some e \<Rightarrow> Inl e
      | None \<Rightarrow> Inr (Some (new_Blob [PartBuffer bs] fallbackMime)))"

text \<open>
  The function returns a Blob or \<^verbatim>\<open>null\<close> (\<open>None\<close>), or throws (\<open>Inl\<close>), together
  with the diagnostics it writes to the console. The test
  \<^verbatim>\<open>typeof Blob !== 'undefined'\<close> is true in the browser, where effects run. The tests
  \<^verbatim>\<open>data instanceof Blob\<close> and \<^verbatim>\<open>data instanceof ArrayBuffer\<close> and the two Blob
  constructions for buffers and views stand outside the \<^verbatim>\<open>try\<close> blocks: what they throw
  reaches the caller. \<^verbatim>\<open>instanceof\<close> walks the prototype chain of \<open>data\<close>, which throws
  for \<open>JProxy\<close>.
\<close>

fun makeBlobFromPossible ::
  "platform \<Rightarrow> jsval \<Rightarrow> jsstring \<Rightarrow> (exn + blob option) \<times> diagnostic list" where
  "makeBlobFromPossible P data fallbackMime =
     (if \<not> truthy data then (Inr None, [])
      else case data of
        JBlob b \<Rightarrow> (Inr (Some b), [])
      | JArrayBuffer bs \<Rightarrow> (Inr (Some (new_Blob [PartBuffer bs] fallbackMime)), [])
      | JView buf off len \<Rightarrow> (Inr (Some (new_Blob [PartBuffer buf] fallbackMime)), [])
      | JProxy e \<Rightarrow> (Inl e, [])
      | JDetachedBuffer \<Rightarrow> (blob_of_odd_buffer P Detached [] fallbackMime, [])
      | JDetachedView \<Rightarrow> (blob_of_odd_buffer P Detached [] fallbackMime, [])
      | JSharedView buf off len \<Rightarrow> (blob_of_odd_buffer P Shared buf fallbackMime, [])
      | JString s \<Rightarrow>
          (case decode_string s fallbackMime of
             Inr b \<Rightarrow> (Inr (Some b), [])
           | Inl e \<Rightarrow>
               (Inr None,
                [ConsoleWarn (lit ''makeBlobFromPossible failed to decode string data'') (Some e)]))
      | _ \<Rightarrow>
          (case stringify_blob P data fallbackMime of
             Inr b \<Rightarrow> (Inr (Some b), [])
           | Inl e \<Rightarrow> (Inr None, [])))"

section \<open>The detail view\<close>

text \<open>The component's state: \<^verbatim>\<open>imageUrl\<close>, \<^verbatim>\<open>resumeUrl\<close>, \<^verbatim>\<open>feedback\<close> and \<^verbatim>\<open>error\<close>.\<close>

record view =
  imageUrl :: jsstring
  resumeUrl :: jsstring
  feedback :: jsval
  error :: "jsstring option"

text \<open>
  \<^verbatim>\<open>loadResume\<close> is an async function: it runs up to an \<^verbatim>\<open>await\<close>, and goes on when
  the awaited promise settles. \<open>pending\<close> says where a load is suspended and holds the
  locals it needs afterwards: the key asked of the key-value store; the parsed record and
  the path of the PDF; the parsed record, \<^verbatim>\<open>newResumeUrl\<close> and the path of the image.
\<close>

datatype pending =
    AwaitKv jsstring
  | AwaitResume jsval jsval
  | AwaitImage jsval jsstring jsval
  | Finished

text \<open>
  One run of the effect: its load, its \<^verbatim>\<open>mounted\<close> flag, and the \<^verbatim>\<open>imageUrl\<close> its
  closure captured (only the final \<^verbatim>\<open>console.log\<close> reads it).
\<close>

record load =
  pending :: pending
  mounted :: bool
  seenImageUrl :: jsstring

text \<open>
  Everything the effect can touch: the component's state, the ref \<^verbatim>\<open>createdUrls\<close>, the
  registry of object URLs (every URL issued and every URL revoked, in order), the console
  and the runs of the effect so far.
\<close>

record world =
  view :: view
  createdUrls :: "jsstring list"
  issued :: "jsstring list"
  revoked :: "jsstring list"
  console :: "diagnostic list"
  loads :: "load list"

definition initial_world :: world where
  "initial_world =
     \<lparr>view = \<lparr>imageUrl = [], resumeUrl = [], feedback = JNull, error = None\<rparr>,
      createdUrls = [], issued = [], revoked = [], console = [], loads = []\<rparr>"

text \<open>
  Reading a property: \<^verbatim>\<open>null\<close> and \<^verbatim>\<open>undefined\<close> throw a TypeError, a Proxy of the
  kind \<open>JProxy\<close> throws its exception, an object gives the value or \<^verbatim>\<open>undefined\<close>. The names read by the view (\<^verbatim>\<open>resumePath\<close>,
  \<^verbatim>\<open>imagePath\<close>, \<^verbatim>\<open>feedback\<close>, \<^verbatim>\<open>ATS\<close>, \<^verbatim>\<open>score\<close>, \<^verbatim>\<open>tips\<close>) are no properties
  of primitives, arrays, buffers or Blobs.
\<close>

fun get_prop :: "jsval \<Rightarrow> jsstring \<Rightarrow> exn + jsval" where
  "get_prop JUndefined k =
     Inl (JSError (lit ''TypeError'') (lit ''Cannot read properties of undefined''))"
| "get_prop JNull k =
     Inl (JSError (lit ''TypeError'') (lit ''Cannot read properties of null''))"
| "get_prop (JObject kvs) k = Inr (case map_of kvs k of None \<Rightarrow> JUndefined | Some v \<Rightarrow> v)"
| "get_prop (JProxy e) k = Inl e"
| "get_prop v k = Inr JUndefined"

text \<open>\<^verbatim>\<open>a || b\<close> on values.\<close>

definition or_else :: "jsval \<Rightarrow> jsval \<Rightarrow> jsval" where
  "or_else a b = (if truthy a then a else b)"

text \<open>\<^verbatim>\<open>err?.message || String(err)\<close> for an Error object.\<close>

definition error_text :: "exn \<Rightarrow> jsstring" where
  "error_text err =
     (if message err \<noteq> [] then message err
      else if name err = [] then message err
      else name err)"

definition setError :: "jsstring option \<Rightarrow> world \<Rightarrow> world" where
  "setError e w = w\<lparr>view := (view w)\<lparr>error := e\<rparr>\<rparr>"

definition setResumeUrl :: "jsstring \<Rightarrow> world \<Rightarrow> world" where
  "setResumeUrl u w = w\<lparr>view := (view w)\<lparr>resumeUrl := u\<rparr>\<rparr>"

definition setImageUrl :: "jsstring \<Rightarrow> world \<Rightarrow> world" where
  "setImageUrl u w = w\<lparr>view := (view w)\<lparr>imageUrl := u\<rparr>\<rparr>"

definition setFeedback :: "jsval \<Rightarrow> world \<Rightarrow> world" where
  "setFeedback f w = w\<lparr>view := (view w)\<lparr>feedback := f\<rparr>\<rparr>"

definition emit :: "diagnostic list \<Rightarrow> world \<Rightarrow> world" where
  "emit ds w = w\<lparr>console := console w @ ds\<rparr>"

definition pushUrl :: "jsstring \<Rightarrow> world \<Rightarrow> world" where
  "pushUrl u w = w\<lparr>createdUrls := createdUrls w @ [u]\<rparr>"

text \<open>\<^verbatim>\<open>URL.createObjectURL\<close>: a new URL of the \<^verbatim>\<open>blob:\<close> scheme.\<close>

definition createObjectURL :: "platform \<Rightarrow> blob \<Rightarrow> world \<Rightarrow> jsstring \<times> world" where
  "createObjectURL P b w =
     (let u = lit ''blob:'' @ url_suffix P (length (issued w))
      in (u, w\<lparr>issued := issued w @ [u]\<rparr>))"

text \<open>\<^verbatim>\<open>URL.revokeObjectURL\<close>: throws, or revokes.\<close>

definition revokeObjectURL :: "platform \<Rightarrow> jsstring \<Rightarrow> world \<Rightarrow> exn + world" where
  "revokeObjectURL P u w =
     (case revoke_error P u of
        Some e \<Rightarrow> Inl e
      | None \<Rightarrow> Inr (w\<lparr>revoked := revoked w @ [u]\<rparr>))"

text \<open>The \<^verbatim>\<open>catch\<close> block of \<^verbatim>\<open>loadResume\<close>.\<close>

definition catch_load :: "load \<Rightarrow> exn \<Rightarrow> world \<Rightarrow> pending \<times> world" where
  "catch_load ld err w =
     (let w1 = emit [ConsoleError (lit ''Error loading resume:'') err] w
      in (Finished, if mounted ld then setError (Some (error_text err)) w1 else w1))"

text \<open>An early \<^verbatim>\<open>return\<close> behind \<^verbatim>\<open>if (!mounted) return; setError(msg);\<close>.\<close>

definition give_up :: "load \<Rightarrow> string \<Rightarrow> world \<Rightarrow> pending \<times> world" where
  "give_up ld msg w = (Finished, if \<not> mounted ld then w else setError (Some (lit msg)) w)"

text \<open>From the settling of \<^verbatim>\<open>kv.get\<close> to the call of \<^verbatim>\<open>fs.read(data.resumePath)\<close>.\<close>

definition after_kv :: "platform \<Rightarrow> load \<Rightarrow> exn + jsval \<Rightarrow> world \<Rightarrow> pending \<times> world" where
  "after_kv P ld r w =
     (case r of
        Inl e \<Rightarrow> catch_load ld e w
      | Inr resumeKV \<Rightarrow>
          if \<not> truthy resumeKV then give_up ld ''Resume not found in kv.'' w
          else case JSON_parse P resumeKV of
            Inl e \<Rightarrow> catch_load ld e w
          | Inr data \<Rightarrow>
              (case get_prop data (lit ''resumePath'') of
                 Inl e \<Rightarrow> catch_load ld e w
               | Inr path \<Rightarrow> (AwaitResume data path, w)))"

text \<open>From the settling of the PDF read to the call of \<^verbatim>\<open>fs.read(data.imagePath)\<close>.\<close>

definition after_resume ::
  "platform \<Rightarrow> load \<Rightarrow> jsval \<Rightarrow> exn + jsval \<Rightarrow> world \<Rightarrow> pending \<times> world" where
  "after_resume P ld data r w =
     (case r of
        Inl e \<Rightarrow> catch_load ld e w
      | Inr resumeRaw \<Rightarrow>
          if \<not> truthy resumeRaw then give_up ld ''Failed to read resume PDF from fs.'' w
          else case makeBlobFromPossible P resumeRaw (lit ''application/pdf'') of
            (Inl e, ds) \<Rightarrow> catch_load ld e (emit ds w)
          | (Inr None, ds) \<Rightarrow>
              give_up ld ''Could not create PDF blob from resume data.'' (emit ds w)
          | (Inr (Some pdfBlob), ds) \<Rightarrow>
              (let (newResumeUrl, w1) = createObjectURL P pdfBlob (emit ds w);
                   w2 = pushUrl newResumeUrl w1;
                   w3 = (if mounted ld then setResumeUrl newResumeUrl w2 else w2)
               in case get_prop data (lit ''imagePath'') of
                    Inl e \<Rightarrow> catch_load ld e w3
                  | Inr path \<Rightarrow> (AwaitImage data newResumeUrl path, w3)))"

text \<open>
  \<^verbatim>\<open>makeBlobFromPossible(imageRaw, 'image/png') || makeBlobFromPossible(imageRaw, 'image/jpeg')\<close>:
  the second call is made when the first one returns \<^verbatim>\<open>null\<close>.
\<close>

definition image_blob :: "platform \<Rightarrow> jsval \<Rightarrow> (exn + blob option) \<times> diagnostic list" where
  "image_blob P imageRaw =
     (case makeBlobFromPossible P imageRaw (lit ''image/png'') of
        (Inr None, ds) \<Rightarrow>
          (case makeBlobFromPossible P imageRaw (lit ''image/jpeg'') of
             (r, ds') \<Rightarrow> (r, ds @ ds'))
      | (r, ds) \<Rightarrow> (r, ds))"

text \<open>From the settling of the image read to the end of \<^verbatim>\<open>loadResume\<close>.\<close>

definition finish_load :: "load \<Rightarrow> jsval \<Rightarrow> jsstring \<Rightarrow> world \<Rightarrow> pending \<times> world" where
  "finish_load ld data newResumeUrl w =
     (case get_prop data (lit ''feedback'') of
        Inl e \<Rightarrow> catch_load ld e w
      | Inr fb \<Rightarrow>
          (let w1 = (if mounted ld then setError None (setFeedback (or_else fb JNull) w) else w)
           in (Finished, emit [ConsoleLog newResumeUrl (seenImageUrl ld) fb] w1)))"

definition after_image ::
  "platform \<Rightarrow> load \<Rightarrow> jsval \<Rightarrow> jsstring \<Rightarrow> exn + jsval \<Rightarrow> world \<Rightarrow> pending \<times> world" where
  "after_image P ld data newResumeUrl r w =
     (case r of
        Inl e \<Rightarrow> catch_load ld e w
      | Inr imageRaw \<Rightarrow>
          if truthy imageRaw then
            (case image_blob P imageRaw of
               (Inl e, ds) \<Rightarrow> catch_load ld e (emit ds w)
             | (Inr (Some imgBlob), ds) \<Rightarrow>
                 (let (newImageUrl, w1) = createObjectURL P imgBlob (emit ds w);
                      w2 = pushUrl newImageUrl w1;
                      w3 = (if mounted ld then setImageUrl newImageUrl w2 else w2)
                  in finish_load ld data newResumeUrl w3)
             | (Inr None, ds) \<Rightarrow>
                 finish_load ld data newResumeUrl
                   (emit (ds @ [ConsoleWarn
                      (lit ''Could not convert image data to Blob; skipping image preview.'') None]) w))
          else
            finish_load ld data newResumeUrl
              (emit [ConsoleWarn (lit ''No image found at imagePath; skipping image preview.'') None] w))"

text \<open>
  The load goes on when its awaited promise settles; the stores decide with what. A store
  call that throws at once is treated as a promise that rejects.
\<close>

definition resume_load :: "platform \<Rightarrow> load \<Rightarrow> world \<Rightarrow> pending \<times> world" where
  "resume_load P ld w =
     (case pending ld of
        AwaitKv key \<Rightarrow> after_kv P ld (kv_get P key) w
      | AwaitResume data path \<Rightarrow> after_resume P ld data (fs_read P path) w
      | AwaitImage data newResumeUrl path \<Rightarrow> after_image P ld data newResumeUrl (fs_read P path) w
      | Finished \<Rightarrow> (Finished, w))"

text \<open>The cleanup's loop: \<^verbatim>\<open>try { URL.revokeObjectURL(u); } catch (e) { }\<close> for each URL.\<close>

fun revoke_all :: "platform \<Rightarrow> jsstring list \<Rightarrow> world \<Rightarrow> world" where
  "revoke_all P [] w = w"
| "revoke_all P (u # us) w =
     revoke_all P us (case revokeObjectURL P u w of Inl e \<Rightarrow> w | Inr w' \<Rightarrow> w')"

text \<open>
  What happens to the component: the effect runs for an id (\<open>None\<close> when the route has
  none) and starts a load; the awaited promise of the k-th load settles; the cleanup of the
  k-th run of the effect runs (before the next run, or on unmount).
\<close>

datatype event = Effect "jsstring option" | Settle nat | Cleanup nat

definition resume_key :: "jsstring option \<Rightarrow> jsstring" where
  "resume_key rid = lit ''resume:'' @ (case rid of None \<Rightarrow> lit ''undefined'' | Some i \<Rightarrow> i)"

fun step :: "platform \<Rightarrow> world \<Rightarrow> event \<Rightarrow> world" where
  "step P w (Effect rid) =
     w\<lparr>loads := loads w @
        [\<lparr>pending = AwaitKv (resume_key rid), mounted = True, seenImageUrl = imageUrl (view w)\<rparr>]\<rparr>"
| "step P w (Settle k) =
     (if k < length (loads w) then
        (let ld = loads w ! k;
             (p, w') = resume_load P ld w
         in w'\<lparr>loads := (loads w')[k := ld\<lparr>pending := p\<rparr>]\<rparr>)
      else w)"
| "step P w (Cleanup k) =
     (if k < length (loads w) then
        (let w1 = w\<lparr>loads := (loads w)[k := (loads w ! k)\<lparr>mounted := False\<rparr>]\<rparr>;
             w2 = revoke_all P (createdUrls w1) w1
         in w2\<lparr>createdUrls := []\<rparr>)
      else w)"

definition run :: "platform \<Rightarrow> world \<Rightarrow> event list \<Rightarrow> world" where
  "run P w evs = foldl (step P) w evs"

subsection \<open>What the component renders\<close>

text \<open>
  \<open>preview\<close> is the link to the PDF around the preview image (\<^verbatim>\<open>href\<close> and \<^verbatim>\<open>src\<close>),
  \<open>error_line\<close> the error message, \<open>review\<close> the feedback sections with the score and the
  tips handed to the ATS section; without feedback the page shows the scanning animation.
\<close>

record page =
  preview :: "(jsstring \<times> jsstring) option"
  error_line :: "jsstring option"
  review :: "(jsval \<times> jsval \<times> jsval) option"

definition render_review :: "jsval \<Rightarrow> exn + (jsval \<times> jsval \<times> jsval) option" where
  "render_review fb =
     (if truthy fb then
        (case get_prop fb (lit ''ATS'') of
           Inl e \<Rightarrow> Inl e
         | Inr ats \<Rightarrow>
             (case get_prop ats (lit ''score'') of
                Inl e \<Rightarrow> Inl e
              | Inr score \<Rightarrow>
                  (case get_prop ats (lit ''tips'') of
                     Inl e \<Rightarrow> Inl e
                   | Inr tips \<Rightarrow> Inr (Some (fb, or_else score (JNumber 0), or_else tips (JArray []))))))
      else Inr None)"

definition render :: "view \<Rightarrow> exn + page" where
  "render v =
     (case render_review (feedback v) of
        Inl e \<Rightarrow> Inl e
      | Inr r \<Rightarrow>
          Inr \<lparr>preview = (if imageUrl v \<noteq> [] \<and> resumeUrl v \<noteq> []
                          then Some (resumeUrl v, imageUrl v) else None),
               error_line = (case error v of
                               None \<Rightarrow> None
                             | Some e \<Rightarrow> if e \<noteq> [] then Some e else None),
               review = r\<rparr>)"

section \<open>Auxiliary notions for the statements\<close>

text \<open>
  A media type that the Blob constructor keeps as it is: printable ASCII without upper-case
  letters.
\<close>

definition lowercase_printable :: "jsstring \<Rightarrow> bool" where
  "lowercase_printable t = list_all (\<lambda>c. 0x20 \<le> c \<and> c \<le> 0x7E \<and> \<not> (0x41 \<le> c \<and> c \<le> 0x5A)) t"

text \<open>The payloads that reach the last branch, \<^verbatim>\<open>JSON.stringify\<close>.\<close>

definition is_other_value :: "jsval \<Rightarrow> bool" where
  "is_other_value data =
     (truthy data \<and>
      (case data of
         JBlob b \<Rightarrow> False
       | JArrayBuffer bs \<Rightarrow> False
       | JView buf off len \<Rightarrow> False
       | JDetachedBuffer \<Rightarrow> False
       | JDetachedView \<Rightarrow> False
       | JSharedView buf off len \<Rightarrow> False
       | JProxy e \<Rightarrow> False
       | JString s \<Rightarrow> False
       | _ \<Rightarrow> True))"


text \<open>
  The standard base64 encoding of a byte sequence, with padding: the sextets of the bytes,
  their characters, and one or two \<^verbatim>\<open>=\<close> to fill the last group of four.
\<close>

definition base64_char :: "nat \<Rightarrow> code_unit" where
  "base64_char v =
     of_nat (if v < 26 then 65 + v else if v < 52 then 71 + v else if v < 62 then v - 4
             else if v = 62 then 43 else 47)"

fun to_sextets :: "byte list \<Rightarrow> nat list" where
  "to_sextets (x # y # z # rest) =
     (unat x div 4) # ((unat x mod 4) * 16 + unat y div 16) # ((unat y mod 16) * 4 + unat z div 64)
       # (unat z mod 64) # to_sextets rest"
| "to_sextets [x, y] = [unat x div 4, (unat x mod 4) * 16 + unat y div 16, (unat y mod 16) * 4]"
| "to_sextets [x] = [unat x div 4, (unat x mod 4) * 16]"
| "to_sextets [] = []"

definition base64_padding :: "byte list \<Rightarrow> jsstring" where
  "base64_padding bs = replicate ((3 - length bs mod 3) mod 3) 0x3D"

definition base64_encode :: "byte list \<Rightarrow> jsstring" where
  "base64_encode bs = map base64_char (to_sextets bs) @ base64_padding bs"


subsection \<open>A concrete environment\<close>

text \<open>
  The record of the specification's scenario, with the path of its image as a parameter,
  and its JSON text.
\<close>

definition stored_record :: "string \<Rightarrow> jsval" where
  "stored_record img =
     JObject [(lit ''resumePath'', JString (lit ''r/1.pdf'')),
              (lit ''imagePath'', JString (lit img)),
              (lit ''feedback'',
                 JObject [(lit ''ATS'',
                   JObject [(lit ''score'', JNumber 0x4054000000000000),
                            (lit ''tips'', JArray [JString (lit ''Add metrics'')])])])]"

definition stored_text :: "string \<Rightarrow> jsstring" where
  \<open>stored_text img =
     lit ''{"resumePath":"r/1.pdf","imagePath":"'' @ lit img @
     lit ''","feedback":{"ATS":{"score":80,"tips":["Add metrics"]}}}''\<close>

text \<open>
  Stores with two resumes: resume 1 has a PDF and an image (a data URL), resume 2 names
  an image the file store does not have. \<^verbatim>\<open>JSON.parse\<close> knows the two texts,
  \<^verbatim>\<open>JSON.stringify\<close> knows \<^verbatim>\<open>true\<close>, takes \<open>JExotic 0\<close> for a function (the result is
  \<^verbatim>\<open>undefined\<close>) and everything else for a cyclic structure. Revoking never throws. The
  Blob constructor takes a detached buffer as empty and rejects a shared one.
\<close>

definition fake_platform :: platform where
  "fake_platform =
     \<lparr>JSON_stringify =
        (\<lambda>v. if v = JBoolean True then Inr (Some (lit ''true''))
              else if v = JExotic 0 then Inr None
              else Inl (JSError (lit ''TypeError'') (lit ''cyclic object value''))),
      JSON_parse =
        (\<lambda>v. if v = JString (stored_text ''r/1.png'') then Inr (stored_record ''r/1.png'')
              else if v = JString (stored_text ''r/2.png'') then Inr (stored_record ''r/2.png'')
              else Inl (JSError (lit ''SyntaxError'') (lit ''Unexpected token''))),
      kv_get =
        (\<lambda>k. if k = lit ''resume:1'' then Inr (JString (stored_text ''r/1.png''))
              else if k = lit ''resume:2'' then Inr (JString (stored_text ''r/2.png''))
              else Inr JNull),
      fs_read =
        (\<lambda>p. if p = JString (lit ''r/1.pdf'') then Inr (JArrayBuffer [0x25, 0x50, 0x44, 0x46])
              else if p = JString (lit ''r/1.png'')
                then Inr (JString (lit ''data:image/png;base64,iVBORw==''))
              else Inr JNull),
      url_suffix = (\<lambda>k. replicate (Suc k) 0x78),
      revoke_error = (\<lambda>u. None),
      reject_buffer =
        (\<lambda>k. case k of
                Detached \<Rightarrow> None
              | Shared \<Rightarrow> Some (JSError (lit ''TypeError'') (lit ''The provided value is shared'')))\<rparr>"

text \<open>The same environment with a registry whose \<^verbatim>\<open>revokeObjectURL\<close> always throws.\<close>

definition throwing_platform :: platform where
  "throwing_platform =
     fake_platform\<lparr>revoke_error := (\<lambda>u. Some (JSError (lit ''Error'') (lit ''revoke failed'')))\<rparr>"

text \<open>
  The view of resume 2 after the record has arrived: its load waits for the PDF.
\<close>

definition waiting_for_pdf :: world where
  "waiting_for_pdf = run fake_platform initial_world [Effect (Some (lit ''2'')), Settle 0]"

section \<open>Properties of the platform functions\<close>

lemma includes_str_iff: "includes_str t p \<longleftrightarrow> (\<exists>a b. t = a @ p @ b)"
proof (induction t)
  case Nil
  then show ?case by auto
next
  case (Cons c cs)
  show ?case
  proof
    assume "includes_str (c # cs) p"
    then consider "take (length p) (c # cs) = p" | "includes_str cs p" by auto
    then show "\<exists>a b. c # cs = a @ p @ b"
    proof cases
      case 1
      then have "c # cs = [] @ p @ drop (length p) (c # cs)"
        by (metis append_Nil append_take_drop_id)
      then show ?thesis by blast
    next
      case 2
      then obtain a b where "cs = a @ p @ b" using Cons.IH by blast
      then have "c # cs = (c # a) @ p @ b" by simp
      then show ?thesis by blast
    qed
  next
    assume "\<exists>a b. c # cs = a @ p @ b"
    then obtain a b where ab: "c # cs = a @ p @ b" by blast
    show "includes_str (c # cs) p"
    proof (cases a)
      case Nil
      then have "take (length p) (c # cs) = p" using ab by simp
      then show ?thesis by simp
    next
      case (Cons x a')
      then have "cs = a' @ p @ b" using ab by simp
      then have "includes_str cs p" using Cons.IH by blast
      then show ?thesis by simp
    qed
  qed
qed

lemma includes_str_elem: "includes_str t p \<Longrightarrow> x \<in> set p \<Longrightarrow> x \<in> set t"
  by (auto simp: includes_str_iff)

text \<open>Without an occurrence of the separator there is one piece.\<close>

lemma split_from_no_sep:
  "sep \<noteq> [] \<Longrightarrow> \<not> includes_str s sep \<Longrightarrow> split_from sep piece s = [piece @ s]"
proof (induction s arbitrary: piece)
  case Nil
  then show ?case by (simp add: split_from.simps)
next
  case (Cons c cs)
  from Cons.prems have no: "take (length sep) (c # cs) \<noteq> sep" and rest: "\<not> includes_str cs sep"
    by auto
  have "split_from sep piece (c # cs) = split_from sep (piece @ [c]) cs"
    using no by (subst split_from.simps) simp
  then show ?case using Cons.IH[OF Cons.prems(1) rest] by simp
qed

text \<open>
  The first piece ends at the first occurrence: no occurrence starts inside \<open>pre\<close> when
  \<open>pre\<close> followed by all but the last character of the separator does not contain it.
\<close>

lemma split_from_first:
  "sep \<noteq> [] \<Longrightarrow> \<not> includes_str (pre @ butlast sep) sep \<Longrightarrow>
   split_from sep piece (pre @ sep @ rest) = (piece @ pre) # split_from sep [] rest"
proof (induction pre arbitrary: piece)
  case Nil
  then show ?case by (subst split_from.simps) simp
next
  case (Cons c pre)
  from Cons.prems have no: "take (length sep) ((c # pre) @ butlast sep) \<noteq> sep"
    and rest: "\<not> includes_str (pre @ butlast sep) sep"
    by auto
  have eq: "(c # pre) @ sep @ rest = ((c # pre) @ butlast sep) @ (last sep # rest)"
    using Cons.prems(1) by simp
  have "take (length sep) (((c # pre) @ butlast sep) @ (last sep # rest))
        = take (length sep) ((c # pre) @ butlast sep)"
    by (subst take_append) simp
  then have "take (length sep) ((c # pre) @ sep @ rest) = take (length sep) ((c # pre) @ butlast sep)"
    by (simp only: eq)
  then have "take (length sep) ((c # pre) @ sep @ rest) \<noteq> sep" using no by simp
  then have "split_from sep piece ((c # pre) @ sep @ rest)
             = split_from sep (piece @ [c]) (pre @ sep @ rest)"
    by (subst split_from.simps) simp
  then show ?case using Cons.IH[OF Cons.prems(1) rest] by simp
qed

text \<open>Text that decodes has no comma, so it does not contain the marker.\<close>

lemma strip_padding_keeps:
  assumes x: "x \<in> set d" "x \<noteq> 0x3D"
  shows "x \<in> set (strip_padding d)"
proof -
  have keep: "x \<in> set (butlast ys)" if "x \<in> set ys" "ys \<noteq> []" "last ys = 0x3D" for ys
  proof -
    have "ys = butlast ys @ [last ys]" using that(2) by simp
    then have "set ys = set (butlast ys) \<union> {last ys}"
      by (metis list.simps(15) set_append list.set(1) Un_insert_right sup_bot.right_neutral)
    then show ?thesis using that x(2) by auto
  qed
  show ?thesis
  proof (cases "length d mod 4 = 0 \<and> d \<noteq> [] \<and> last d = 0x3D")
    case False
    then show ?thesis using x by (auto simp: strip_padding_def)
  next
    case True
    then have b1: "x \<in> set (butlast d)" using keep x by blast
    show ?thesis
    proof (cases "last (butlast d) = 0x3D")
      case False
      then show ?thesis using True b1 by (simp add: strip_padding_def)
    next
      case l2: True
      have "butlast d \<noteq> []" using b1 by auto
      then have "x \<in> set (butlast (butlast d))" using keep[OF b1] l2 by blast
      then show ?thesis using True l2 by (simp add: strip_padding_def)
    qed
  qed
qed

lemma valid_base64_no_comma:
  assumes "forgiving_base64_decode t = Some b"
  shows "0x2C \<notin> set t"
proof
  assume "0x2C \<in> set t"
  then have "0x2C \<in> set (filter (\<lambda>c. \<not> is_ascii_whitespace c) t)"
    by (simp add: is_ascii_whitespace_def)
  then have "0x2C \<in> set (strip_padding (filter (\<lambda>c. \<not> is_ascii_whitespace c) t))"
    by (rule strip_padding_keeps) simp
  moreover have "base64_value 0x2C = None"
    by (simp add: base64_value_def)
  ultimately have "list_ex (\<lambda>c. base64_value c = None)
      (strip_padding (filter (\<lambda>c. \<not> is_ascii_whitespace c) t))"
    by (auto simp: list_ex_iff)
  then have "forgiving_base64_decode t = None"
    by (simp add: forgiving_base64_decode_def Let_def)
  then show False using assms by simp
qed

lemma valid_base64_no_marker:
  assumes "forgiving_base64_decode t = Some b"
  shows "\<not> includes_str t (lit ''base64,'')"
proof
  assume "includes_str t (lit ''base64,'')"
  moreover have "0x2C \<in> set (lit ''base64,'')" by (simp add: lit_def)
  ultimately have "0x2C \<in> set t" by (rule includes_str_elem)
  then show False using valid_base64_no_comma[OF assms] by simp
qed

lemma base64_text_plain:
  "forgiving_base64_decode t = Some b \<Longrightarrow> base64_text t = t"
  by (simp add: base64_text_def valid_base64_no_marker)

lemma base64_text_after_marker:
  assumes "forgiving_base64_decode t = Some b"
    and "\<not> includes_str (pre @ butlast (lit ''base64,'')) (lit ''base64,'')"
  shows "base64_text (pre @ lit ''base64,'' @ t) = t"
proof -
  have ne: "lit ''base64,'' \<noteq> []" by (simp add: lit_def)
  have "includes_str (pre @ lit ''base64,'' @ t) (lit ''base64,'')"
    unfolding includes_str_iff by blast
  moreover have "split (pre @ lit ''base64,'' @ t) (lit ''base64,'') = [pre, t]"
    using split_from_first[OF ne assms(2), of "[]" t]
      split_from_no_sep[OF ne valid_base64_no_marker[OF assms(1)], of "[]"]
    by (simp add: split_def ne)
  ultimately show ?thesis by (simp add: base64_text_def element_as_string_def)
qed

text \<open>The loop copies the binary string into the array, each code unit cut to a byte.\<close>

lemma fill_bytes_from:
  "i \<le> length binary \<Longrightarrow> length bytes = length binary \<Longrightarrow>
   fill_bytes binary i bytes = take i bytes @ map ucast (drop i binary)"
proof (induction binary i bytes rule: fill_bytes.induct)
  case (1 binary i bytes)
  show ?case
  proof (cases "i < length binary")
    case True
    have "fill_bytes binary i bytes = fill_bytes binary (Suc i) (bytes[i := ucast (binary ! i)])"
      using True by (subst fill_bytes.simps) simp
    also have "\<dots> = take (Suc i) (bytes[i := ucast (binary ! i)]) @ map ucast (drop (Suc i) binary)"
      using "1.IH"[OF True] True "1.prems" by simp
    also have "\<dots> = take i bytes @ map ucast (drop i binary)"
      using True "1.prems"
      by (simp add: take_Suc_conv_app_nth Cons_nth_drop_Suc[symmetric])
    finally show ?thesis .
  next
    case False
    then show ?thesis using "1.prems" by (subst fill_bytes.simps) simp
  qed
qed

lemma fill_bytes_all: "fill_bytes binary 0 (replicate (length binary) 0) = map ucast binary"
  using fill_bytes_from[of 0 binary "replicate (length binary) 0"] by simp

lemma ucast_byte_roundtrip: "(ucast (ucast (b :: byte) :: code_unit) :: byte) = b"
  by (simp add: ucast_down_ucast_id is_down)

lemma fill_bytes_decoded:
  "fill_bytes (map ucast (b :: byte list)) 0 (replicate (length b) 0) = b"
  using fill_bytes_all[of "map ucast b :: jsstring"]
  by (simp add: comp_def ucast_byte_roundtrip)

lemma decode_string_ok:
  "forgiving_base64_decode (base64_text s) = Some b \<Longrightarrow>
   decode_string s m = Inr \<lparr>content = b, type = normalize_type m\<rparr>"
  by (simp add: decode_string_def atob_def fill_bytes_decoded new_Blob_def view_bytes_def Let_def)

lemma decode_string_fail:
  "forgiving_base64_decode (base64_text s) = None \<Longrightarrow>
   decode_string s m = Inl (JSError (lit ''InvalidCharacterError'')
                  (lit ''The string to be decoded is not correctly encoded.''))"
  by (simp add: decode_string_def atob_def)

lemma normalize_type_plain: "lowercase_printable m \<Longrightarrow> normalize_type m = m"
proof -
  assume lp: "lowercase_printable m"
  then have "list_all (\<lambda>c. 0x20 \<le> c \<and> c \<le> 0x7E) m"
    by (auto simp: lowercase_printable_def list_all_iff)
  moreover have "map ascii_lowercase m = m"
    using lp by (auto simp: lowercase_printable_def list_all_iff ascii_lowercase_def map_idI)
  ultimately show ?thesis by (simp add: normalize_type_def)
qed

lemma view_branch_whole_buffer:
  "makeBlobFromPossible P (JView buf off len) m =
     (Inr (Some \<lparr>content = buf, type = normalize_type m\<rparr>), [])"
  by (simp add: new_Blob_def)

text \<open>The Blob made from a view holds the bytes of the view when the view covers its buffer.\<close>

lemma view_over_whole_buffer:
  "content (the (projr (fst (makeBlobFromPossible P (JView buf 0 (length buf)) m))))
     = view_bytes buf 0 (length buf)"
  by (simp add: new_Blob_def view_bytes_def)

subsection \<open>The standard encoding decodes to the bytes it encodes\<close>

lemma unat_byte_less: "unat (x :: byte) < 256"
  using unsigned_less[of x, where ?'a = nat] by simp

lemma base64_value_char: "v < 64 \<Longrightarrow> base64_value (base64_char v) = Some v"
  by (auto simp: base64_value_def base64_char_def unat_of_nat Let_def)

lemma base64_char_plain:
  assumes "v < 64"
  shows "\<not> is_ascii_whitespace (base64_char v)" and "base64_char v \<noteq> 0x3D"
proof -
  have ws: "base64_value c = None" if "is_ascii_whitespace c" for c
    using that by (auto simp: is_ascii_whitespace_def base64_value_def)
  have eq: "base64_value 0x3D = None" by (simp add: base64_value_def)
  show "\<not> is_ascii_whitespace (base64_char v)"
    using ws base64_value_char[OF assms] by force
  show "base64_char v \<noteq> 0x3D"
    using eq base64_value_char[OF assms] by force
qed

lemma to_sextets_small: "s \<in> set (to_sextets bs) \<Longrightarrow> s < 64"
proof (induction bs arbitrary: s rule: to_sextets.induct)
  case (1 x y z rest)
  have "unat x < 256" "unat y < 256" "unat z < 256" by (rule unat_byte_less)+
  then have "unat x div 4 < 64" "(unat x mod 4) * 16 + unat y div 16 < 64"
    "(unat y mod 16) * 4 + unat z div 64 < 64" "unat z mod 64 < 64"
    by arith+
  then show ?case using 1 by auto
next
  case (2 x y)
  have "unat x < 256" "unat y < 256" by (rule unat_byte_less)+
  then have "unat x div 4 < 64" "(unat x mod 4) * 16 + unat y div 16 < 64"
    "(unat y mod 16) * 4 < 64"
    by arith+
  then show ?case using 2 by auto
next
  case (3 x)
  have "unat x < 256" by (rule unat_byte_less)
  then have "unat x div 4 < 64" "(unat x mod 4) * 16 < 64" by arith+
  then show ?case using 3 by auto
next
  case 4
  then show ?case by simp
qed

lemma byte_of_unat: "(of_nat (unat (x :: byte)) :: byte) = x"
  by simp

lemma div16_high: "y < 256 \<Longrightarrow> (k * 16 + y div 16) div 16 = (k::nat)"
proof -
  assume "y < 256"
  then have "y div 16 < 16" by simp
  then show ?thesis by simp
qed

lemma mod16_low: "y < 256 \<Longrightarrow> (k * 16 + y div 16) mod 16 = (y div 16 :: nat)"
proof -
  assume "y < 256"
  then have "y div 16 < 16" by simp
  then show ?thesis by simp
qed

lemma div4_high: "z < 256 \<Longrightarrow> (k * 4 + z div 64) div 4 = (k::nat)"
proof -
  assume "z < 256"
  then have "z div 64 < 4" by simp
  then show ?thesis by simp
qed

lemma mod4_low: "z < 256 \<Longrightarrow> (k * 4 + z div 64) mod 4 = (z div 64 :: nat)"
proof -
  assume "z < 256"
  then have "z div 64 < 4" by simp
  then show ?thesis by simp
qed

lemma sextet_byte1: "y < 256 \<Longrightarrow> a div 4 * 4 + ((a mod 4) * 16 + y div 16) div 16 = (a::nat)"
  by (simp add: div16_high)

lemma sextet_byte2: "y < 256 \<Longrightarrow> z < 256 \<Longrightarrow>
   (((a mod 4) * 16 + y div 16) mod 16) * 16 + ((y mod 16) * 4 + z div 64) div 4 = (y::nat)"
  by (simp add: mod16_low div4_high)

lemma sextet_byte3: "z < 256 \<Longrightarrow> (((y mod 16) * 4 + z div 64) mod 4) * 64 + z mod 64 = (z::nat)"
  by (simp add: mod4_low)

lemma sextet_byte2_short: "y < 256 \<Longrightarrow>
   (((a mod 4) * 16 + y div 16) mod 16) * 16 + ((y mod 16) * 4) div 4 = (y::nat)"
  by (simp add: mod16_low)

lemma sextet_byte1_short: "a div 4 * 4 + ((a mod 4) * 16) div 16 = (a::nat)"
  by simp


lemma sextets_to_bytes_inverse: "sextets_to_bytes (to_sextets bs) = bs"
proof (induction bs rule: to_sextets.induct)
  case (1 x y z rest)
  have b: "unat y < 256" "unat z < 256" by (rule unat_byte_less)+
  show ?case
    using 1
    by (simp only: to_sextets.simps sextets_to_bytes.simps sextet_byte1[OF b(1)]
        sextet_byte2[OF b] sextet_byte3[OF b(2)] byte_of_unat)
next
  case (2 x y)
  have b: "unat y < 256" by (rule unat_byte_less)
  show ?case
    by (simp only: to_sextets.simps sextets_to_bytes.simps sextet_byte1[OF b]
        sextet_byte2_short[OF b] byte_of_unat)
next
  case (3 x)
  show ?case
    by (simp only: to_sextets.simps sextets_to_bytes.simps sextet_byte1_short byte_of_unat)
next
  case 4
  show ?case by simp
qed

lemma to_sextets_length:
  "(length bs mod 3 = 0 \<longrightarrow> length (to_sextets bs) mod 4 = 0)
   \<and> (length bs mod 3 = 1 \<longrightarrow> length (to_sextets bs) mod 4 = 2)
   \<and> (length bs mod 3 = 2 \<longrightarrow> length (to_sextets bs) mod 4 = 3)"
proof (induction bs rule: to_sextets.induct)
  case (1 x y z rest)
  have a: "length (x # y # z # rest) = length rest + 3" by simp
  have b: "length (to_sextets (x # y # z # rest)) = length (to_sextets rest) + 4" by simp
  show ?case using 1 unfolding a b by simp
qed simp_all

lemma strip_padding_none:
  "xs = [] \<or> last xs \<noteq> 0x3D \<Longrightarrow> strip_padding xs = xs"
  by (auto simp: strip_padding_def)

lemma strip_padding_one:
  "xs \<noteq> [] \<Longrightarrow> last xs \<noteq> 0x3D \<Longrightarrow> length xs mod 4 = 3 \<Longrightarrow>
   strip_padding (xs @ [0x3D]) = xs"
proof -
  assume a: "xs \<noteq> []" "last xs \<noteq> 0x3D" "length xs mod 4 = 3"
  have "length (xs @ [0x3D]) mod 4 = 0" using a(3) by (simp add: mod_Suc)
  then show ?thesis using a by (simp add: strip_padding_def)
qed

lemma strip_padding_two:
  "length xs mod 4 = 2 \<Longrightarrow> strip_padding (xs @ [0x3D, 0x3D]) = xs"
proof -
  assume a: "length xs mod 4 = 2"
  have l: "length (xs @ [0x3D, 0x3D]) mod 4 = 0" using a by (simp add: mod_Suc)
  have b: "butlast (xs @ [0x3D, 0x3D]) = xs @ [0x3D]"
    by (simp add: butlast_append)
  show ?thesis unfolding strip_padding_def using l by (simp add: b)
qed

lemma encoded_chars_last:
  assumes "to_sextets bs \<noteq> []"
  shows "last (map base64_char (to_sextets bs)) \<noteq> 0x3D"
proof -
  have "last (to_sextets bs) \<in> set (to_sextets bs)" using assms by simp
  then have "last (to_sextets bs) < 64" by (rule to_sextets_small)
  then show ?thesis using assms by (simp add: last_map base64_char_plain)
qed

lemma strip_padding_encoded:
  "strip_padding (base64_encode bs) = map base64_char (to_sextets bs)"
proof -
  let ?xs = "map base64_char (to_sextets bs)"
  have "length bs mod 3 < 3" by simp
  then consider "length bs mod 3 = 0" | "length bs mod 3 = 1" | "length bs mod 3 = 2" by linarith
  then show ?thesis
  proof cases
    case 1
    then have "base64_encode bs = ?xs" by (simp add: base64_encode_def base64_padding_def)
    moreover have "?xs = [] \<or> last ?xs \<noteq> 0x3D" using encoded_chars_last[of bs] by auto
    ultimately show ?thesis by (simp add: strip_padding_none)
  next
    case 2
    then have "base64_encode bs = ?xs @ [0x3D, 0x3D]"
      by (simp add: base64_encode_def base64_padding_def numeral_2_eq_2)
    moreover have "length ?xs mod 4 = 2" using to_sextets_length[of bs] 2 by simp
    ultimately show ?thesis by (simp add: strip_padding_two)
  next
    case 3
    then have "base64_encode bs = ?xs @ [0x3D]"
      by (simp add: base64_encode_def base64_padding_def)
    moreover have l: "length ?xs mod 4 = 3" using to_sextets_length[of bs] 3 by simp
    moreover from l have ne: "to_sextets bs \<noteq> []" by auto
    moreover have "last ?xs \<noteq> 0x3D" using encoded_chars_last[OF ne] .
    ultimately show ?thesis by (simp add: strip_padding_one)
  qed
qed

lemma encoded_no_whitespace:
  "filter (\<lambda>c. \<not> is_ascii_whitespace c) (base64_encode bs) = base64_encode bs"
proof -
  have "\<not> is_ascii_whitespace c" if "c \<in> set (base64_encode bs)" for c
  proof -
    from that consider s where "s \<in> set (to_sextets bs)" "c = base64_char s" | "c = 0x3D"
      by (auto simp: base64_encode_def base64_padding_def)
    then show ?thesis
    proof cases
      case 1
      then show ?thesis using to_sextets_small base64_char_plain(1) by blast
    next
      case 2
      then show ?thesis by (simp add: is_ascii_whitespace_def)
    qed
  qed
  then show ?thesis by (simp add: filter_id_conv)
qed

lemma decode_encode: "forgiving_base64_decode (base64_encode bs) = Some bs"
proof -
  let ?d = "map base64_char (to_sextets bs)"
  have d: "strip_padding (filter (\<lambda>c. \<not> is_ascii_whitespace c) (base64_encode bs)) = ?d"
    by (simp add: encoded_no_whitespace strip_padding_encoded)
  have len: "length ?d mod 4 \<noteq> 1"
  proof -
    have "length bs mod 3 < 3" by simp
    then have "length bs mod 3 = 0 \<or> length bs mod 3 = 1 \<or> length bs mod 3 = 2" by linarith
    then show ?thesis using to_sextets_length[of bs] by auto
  qed
  have ok: "\<not> list_ex (\<lambda>c. base64_value c = None) ?d"
    using to_sextets_small[of _ bs] by (auto simp: list_ex_iff base64_value_char)
  have vals: "map (\<lambda>c. the (base64_value c)) ?d = to_sextets bs"
    using to_sextets_small[of _ bs] by (simp add: map_idI base64_value_char comp_def)
  have bytes: "sextets_to_bytes (map (\<lambda>c. the (base64_value c)) ?d) = bs"
    by (simp only: vals sextets_to_bytes_inverse)
  show ?thesis
    unfolding forgiving_base64_decode_def d Let_def
    using len ok bytes by simp
qed

section \<open>Properties of makeBlobFromPossible\<close>

lemma stringify_blob_fails_iff:
  "(\<exists>e. stringify_blob P data m = Inl e) \<longleftrightarrow> (\<exists>e. JSON_stringify P data = Inl e)"
  by (auto simp: stringify_blob_def split: sum.splits option.splits)

lemma decode_string_fails_iff:
  "(\<exists>e. decode_string s m = Inl e) \<longleftrightarrow> forgiving_base64_decode (base64_text s) = None"
proof (cases "forgiving_base64_decode (base64_text s)")
  case None
  then show ?thesis by (simp add: decode_string_fail)
next
  case (Some b)
  then show ?thesis by (simp add: decode_string_ok)
qed

text \<open>When the result is null.\<close>

lemma null_iff:
  "fst (makeBlobFromPossible P data m) = Inr None \<longleftrightarrow>
     (\<not> truthy data
      \<or> (\<exists>s. data = JString s \<and> forgiving_base64_decode (base64_text s) = None)
      \<or> (is_other_value data \<and> (\<exists>e. JSON_stringify P data = Inl e)))"
proof (cases "truthy data")
  case False
  then show ?thesis by simp
next
  case True
  show ?thesis
  proof (cases data)
    case (JString s)
    then show ?thesis
      using True decode_string_fails_iff[of s m]
      by (auto simp: is_other_value_def split: sum.splits)
  qed (use True stringify_blob_fails_iff[of P data m] in
        \<open>auto simp: is_other_value_def blob_of_odd_buffer_def split: sum.splits option.splits\<close>)
qed



lemma decode_ABC: "forgiving_base64_decode (lit ''QUJD'') = Some [0x41, 0x42, 0x43]"
  by (simp add: forgiving_base64_decode_def strip_padding_def lit_def is_ascii_whitespace_def
      base64_value_def)

text \<open>
  The standard encoding of a non-empty byte sequence, alone or behind the first marker of a
  data URL, comes back as a Blob of these bytes.
\<close>

lemma encoded_bytes_come_back:
  "bs \<noteq> [] \<Longrightarrow>
   makeBlobFromPossible P (JString (base64_encode bs)) m
     = (Inr (Some \<lparr>content = bs, type = normalize_type m\<rparr>), [])"
proof -
  assume ne: "bs \<noteq> []"
  have "to_sextets bs \<noteq> []" using ne by (cases bs rule: to_sextets.cases) simp_all
  then have "base64_encode bs \<noteq> []" by (simp add: base64_encode_def)
  moreover have "decode_string (base64_encode bs) m = Inr \<lparr>content = bs, type = normalize_type m\<rparr>"
    using decode_encode[of bs] by (simp add: decode_string_ok base64_text_plain)
  ultimately show ?thesis by simp
qed

lemma encoded_bytes_in_data_url_come_back:
  "\<not> includes_str (pre @ butlast (lit ''base64,'')) (lit ''base64,'') \<Longrightarrow>
   makeBlobFromPossible P (JString (pre @ lit ''base64,'' @ base64_encode bs)) m
     = (Inr (Some \<lparr>content = bs, type = normalize_type m\<rparr>), [])"
proof -
  assume first: "\<not> includes_str (pre @ butlast (lit ''base64,'')) (lit ''base64,'')"
  have "lit ''base64,'' \<noteq> []" by (simp add: lit_def)
  moreover have "decode_string (pre @ lit ''base64,'' @ base64_encode bs) m
      = Inr \<lparr>content = bs, type = normalize_type m\<rparr>"
    using decode_encode[of bs] first by (simp add: decode_string_ok base64_text_after_marker)
  ultimately show ?thesis by simp
qed

text \<open>
  Claim C1, as stated, fails twice. The empty string is valid base64 text (it decodes to no
  bytes) but is falsy, so the guard \<^verbatim>\<open>if (!data) return null\<close> answers \<^verbatim>\<open>null\<close>; and
  the Blob constructor stores the media type \<^verbatim>\<open>Image/PNG\<close> as \<^verbatim>\<open>image/png\<close>.
\<close>

theorem base64_text_counterexample:
  "forgiving_base64_decode [] = Some []
   \<and> fst (makeBlobFromPossible fake_platform (JString []) (lit ''application/pdf''))
       \<noteq> Inr (Some \<lparr>content = [], type = lit ''application/pdf''\<rparr>)
   \<and> forgiving_base64_decode (lit ''QUJD'') = Some [0x41, 0x42, 0x43]
   \<and> fst (makeBlobFromPossible fake_platform (JString (lit ''QUJD'')) (lit ''Image/PNG''))
       \<noteq> Inr (Some \<lparr>content = [0x41, 0x42, 0x43], type = lit ''Image/PNG''\<rparr>)"
proof -
  have "forgiving_base64_decode [] = Some []"
    by (simp add: forgiving_base64_decode_def strip_padding_def)
  moreover have "base64_text (lit ''QUJD'') = lit ''QUJD''"
    using decode_ABC by (rule base64_text_plain)
  then have "decode_string (lit ''QUJD'') (lit ''Image/PNG'')
      = Inr \<lparr>content = [0x41, 0x42, 0x43], type = normalize_type (lit ''Image/PNG'')\<rparr>"
    using decode_ABC by (simp add: decode_string_ok)
  moreover have "normalize_type (lit ''Image/PNG'') \<noteq> lit ''Image/PNG''"
    by (simp add: normalize_type_def ascii_lowercase_def lit_def)
  moreover have "lit ''QUJD'' \<noteq> []" by (simp add: lit_def)
  ultimately show ?thesis using decode_ABC by simp
qed

text \<open>
  Claim C1, amended: let \<open>t\<close> be text that \<^verbatim>\<open>atob\<close> decodes to the bytes \<open>b\<close>. If \<open>t\<close> is
  not empty, \<^verbatim>\<open>makeBlobFromPossible(t, m)\<close> returns a Blob with content \<open>b\<close>. If \<open>t\<close>
  follows the first \<^verbatim>\<open>base64,\<close> marker of a text (no occurrence of the marker starts
  before it), only \<open>t\<close> is decoded: the result is again a Blob with content \<open>b\<close>, also for
  empty \<open>t\<close>. The media type of the Blob is \<open>m\<close> as the constructor normalises it, which is
  \<open>m\<close> itself when \<open>m\<close> is printable ASCII without upper-case letters. No diagnostic is
  written.
\<close>

theorem base64_text_decoded:
  assumes "forgiving_base64_decode t = Some b"
  shows "(t \<noteq> [] \<longrightarrow>
            makeBlobFromPossible P (JString t) m
              = (Inr (Some \<lparr>content = b, type = normalize_type m\<rparr>), []))
         \<and> (\<not> includes_str (pre @ butlast (lit ''base64,'')) (lit ''base64,'') \<longrightarrow>
            makeBlobFromPossible P (JString (pre @ lit ''base64,'' @ t)) m
              = (Inr (Some \<lparr>content = b, type = normalize_type m\<rparr>), []))
         \<and> (lowercase_printable m \<longrightarrow> normalize_type m = m)"
proof -
  have plain: "decode_string t m = Inr \<lparr>content = b, type = normalize_type m\<rparr>"
    using assms by (simp add: decode_string_ok base64_text_plain)
  have marker: "decode_string (pre @ lit ''base64,'' @ t) m = Inr \<lparr>content = b, type = normalize_type m\<rparr>"
    if "\<not> includes_str (pre @ butlast (lit ''base64,'')) (lit ''base64,'')"
    using assms that by (simp add: decode_string_ok base64_text_after_marker)
  have ne: "lit ''base64,'' \<noteq> []" by (simp add: lit_def)
  show ?thesis using plain marker ne by (simp add: normalize_type_plain)
qed

theorem base64_text_decoded_witness:
  "forgiving_base64_decode (lit ''QUJD'') = Some [0x41, 0x42, 0x43]
   \<and> lit ''QUJD'' \<noteq> []
   \<and> \<not> includes_str (lit ''data:application/pdf;'' @ butlast (lit ''base64,'')) (lit ''base64,'')
   \<and> lowercase_printable (lit ''application/pdf'')
   \<and> makeBlobFromPossible fake_platform (JString (lit ''QUJD'')) (lit ''application/pdf'')
       = (Inr (Some \<lparr>content = [0x41, 0x42, 0x43], type = lit ''application/pdf''\<rparr>), [])
   \<and> makeBlobFromPossible fake_platform
        (JString (lit ''data:application/pdf;'' @ lit ''base64,'' @ lit ''QUJD'')) (lit ''application/pdf'')
       = (Inr (Some \<lparr>content = [0x41, 0x42, 0x43], type = lit ''application/pdf''\<rparr>), [])"
proof -
  have h1: "forgiving_base64_decode (lit ''QUJD'') = Some [0x41, 0x42, 0x43]"
    by (rule decode_ABC)
  have h2: "lit ''QUJD'' \<noteq> []" by (simp add: lit_def)
  have h3: "\<not> includes_str (lit ''data:application/pdf;'' @ butlast (lit ''base64,'')) (lit ''base64,'')"
    by (simp add: lit_def)
  have h4: "lowercase_printable (lit ''application/pdf'')"
    by (simp add: lowercase_printable_def lit_def)
  show ?thesis
    using h1 h2 h3 h4
      base64_text_decoded[OF h1, of fake_platform "lit ''application/pdf''" "lit ''data:application/pdf;''"]
    by simp
qed




text \<open>
  Claim C4 says that the Blob made from a typed view holds exactly the bytes of the view.
  The code passes \<^verbatim>\<open>data.buffer\<close> to the Blob constructor, the whole underlying buffer:
  for the view of length 2 at offset 1 of the buffer 1, 2, 3, 4 the Blob holds all four
  bytes, while the view holds 2, 3.
\<close>

theorem view_blob_holds_whole_buffer:
  "makeBlobFromPossible fake_platform (JView [1, 2, 3, 4] 1 2) (lit ''application/pdf'')
     = (Inr (Some \<lparr>content = [1, 2, 3, 4], type = lit ''application/pdf''\<rparr>), [])
   \<and> view_bytes [1, 2, 3, 4] 1 2 = [2, 3]"
  by (simp add: new_Blob_def normalize_type_def ascii_lowercase_def lit_def view_bytes_def)

text \<open>
  Claim C6: for the absent payloads \<^verbatim>\<open>null\<close> and \<^verbatim>\<open>undefined\<close> and every media type the
  result is \<^verbatim>\<open>null\<close>; nothing is thrown and nothing is written to the console.
\<close>

theorem absent_payload_gives_null:
  "makeBlobFromPossible P JNull m = (Inr None, []) \<and>
   makeBlobFromPossible P JUndefined m = (Inr None, [])"
  by simp

theorem absent_payload_gives_null_witness:
  "makeBlobFromPossible fake_platform JNull (lit ''image/png'') = (Inr None, []) \<and>
   makeBlobFromPossible fake_platform JUndefined (lit ''image/png'') = (Inr None, [])"
  using absent_payload_gives_null[of fake_platform "lit ''image/png''"] by simp

text \<open>
  Claim C7, as stated, fails on the media type: the Blob constructor converts it to lower
  case, so the Blob made for \<^verbatim>\<open>Image/PNG\<close> has the type \<^verbatim>\<open>image/png\<close>.
\<close>

theorem raw_buffer_type_counterexample:
  "fst (makeBlobFromPossible fake_platform (JArrayBuffer [1, 2, 3]) (lit ''Image/PNG''))
     \<noteq> Inr (Some \<lparr>content = [1, 2, 3], type = lit ''Image/PNG''\<rparr>)"
  by (simp add: new_Blob_def normalize_type_def ascii_lowercase_def lit_def)

text \<open>
  Claim C7, amended: for every raw byte buffer \<open>b\<close> and media type \<open>m\<close> the result is a
  Blob whose content is \<open>b\<close> and whose media type is \<open>m\<close> as the Blob constructor normalises
  it; it is \<open>m\<close> itself when \<open>m\<close> is printable ASCII without upper-case letters.
\<close>

theorem raw_buffer_wrapped:
  "makeBlobFromPossible P (JArrayBuffer b) m =
      (Inr (Some \<lparr>content = b, type = normalize_type m\<rparr>), [])
   \<and> (lowercase_printable m \<longrightarrow>
        makeBlobFromPossible P (JArrayBuffer b) m = (Inr (Some \<lparr>content = b, type = m\<rparr>), []))"
  by (simp add: new_Blob_def normalize_type_plain)

theorem raw_buffer_wrapped_witness:
  "lowercase_printable (lit ''application/pdf'') \<and>
   makeBlobFromPossible fake_platform (JArrayBuffer [0x25, 0x50, 0x44, 0x46]) (lit ''application/pdf'')
     = (Inr (Some \<lparr>content = [0x25, 0x50, 0x44, 0x46], type = lit ''application/pdf''\<rparr>), [])"
proof -
  have h: "lowercase_printable (lit ''application/pdf'')"
    by (simp add: lowercase_printable_def lit_def)
  show ?thesis
    using h raw_buffer_wrapped[of fake_platform "[0x25, 0x50, 0x44, 0x46]" "lit ''application/pdf''"]
    by blast
qed

text \<open>
  Claim C9: whether the result is \<^verbatim>\<open>null\<close> does not depend on the media type. So when
  the attempt with \<^verbatim>\<open>image/png\<close> gives \<^verbatim>\<open>null\<close> the retry with \<^verbatim>\<open>image/jpeg\<close> gives
  \<^verbatim>\<open>null\<close> too, and the outcome of the two attempts together is that of the first.
\<close>

theorem null_independent_of_media_type:
  "(fst (makeBlobFromPossible P p m1) = Inr None \<longleftrightarrow> fst (makeBlobFromPossible P p m2) = Inr None)
   \<and> (fst (makeBlobFromPossible P p (lit ''image/png'')) = Inr None \<longrightarrow>
        fst (makeBlobFromPossible P p (lit ''image/jpeg'')) = Inr None)
   \<and> fst (image_blob P p) = fst (makeBlobFromPossible P p (lit ''image/png''))"
proof -
  have indep: "fst (makeBlobFromPossible P p a) = Inr None \<longleftrightarrow> fst (makeBlobFromPossible P p b) = Inr None"
    for a b
    unfolding null_iff ..
  have "fst (image_blob P p) = fst (makeBlobFromPossible P p (lit ''image/png''))"
  proof (cases "fst (makeBlobFromPossible P p (lit ''image/png'')) = Inr None")
    case True
    then have "fst (makeBlobFromPossible P p (lit ''image/jpeg'')) = Inr None"
      using indep by blast
    then show ?thesis using True
      by (auto simp: image_blob_def split: prod.splits sum.splits option.splits)
  next
    case False
    then show ?thesis
      by (auto simp: image_blob_def split: prod.splits sum.splits option.splits)
  qed
  then show ?thesis using indep by blast
qed

theorem null_independent_of_media_type_witness:
  "fst (makeBlobFromPossible fake_platform (JString (lit ''%%%'')) (lit ''image/png'')) = Inr None
   \<and> fst (makeBlobFromPossible fake_platform (JString (lit ''%%%'')) (lit ''image/jpeg'')) = Inr None
   \<and> fst (image_blob fake_platform (JString (lit ''%%%''))) = Inr None"
proof -
  have "\<not> includes_str (lit ''%%%'') (lit ''base64,'')" by (simp add: lit_def)
  then have "base64_text (lit ''%%%'') = lit ''%%%''" by (simp add: base64_text_def)
  moreover have "forgiving_base64_decode (lit ''%%%'') = None"
    by (simp add: forgiving_base64_decode_def strip_padding_def lit_def is_ascii_whitespace_def
        base64_value_def)
  ultimately have "decode_string (lit ''%%%'') (lit ''image/png'')
      = Inl (JSError (lit ''InvalidCharacterError'')
                  (lit ''The string to be decoded is not correctly encoded.''))"
    by (simp add: decode_string_fail)
  moreover have "lit ''%%%'' \<noteq> []" by (simp add: lit_def)
  ultimately have h: "fst (makeBlobFromPossible fake_platform (JString (lit ''%%%'')) (lit ''image/png''))
      = Inr None"
    by simp
  show ?thesis
    using h null_independent_of_media_type[of fake_platform "JString (lit ''%%%'')"
        "lit ''image/png''" "lit ''image/jpeg''"]
    by simp
qed

text \<open>
  Claim C10: every falsy payload gives \<^verbatim>\<open>null\<close>, and no diagnostic. Among them are the
  empty string, although it is valid base64 text for no bytes, the number 0, \<^verbatim>\<open>false\<close>
  and NaN.
\<close>

theorem falsy_payload_gives_null:
  "(\<not> truthy data \<longrightarrow> makeBlobFromPossible P data m = (Inr None, []))
   \<and> forgiving_base64_decode [] = Some []
   \<and> makeBlobFromPossible P (JString []) m = (Inr None, [])
   \<and> makeBlobFromPossible P (JNumber 0) m = (Inr None, [])
   \<and> makeBlobFromPossible P (JBoolean False) m = (Inr None, [])
   \<and> makeBlobFromPossible P (JNumber 0x7FF8000000000000) m = (Inr None, [])"
proof -
  have "forgiving_base64_decode [] = Some []"
    by (simp add: forgiving_base64_decode_def strip_padding_def)
  moreover have "makeBlobFromPossible P (JNumber 0) m = (Inr None, [])"
    by (simp add: is_zero_def)
  moreover have "makeBlobFromPossible P (JNumber 0x7FF8000000000000) m = (Inr None, [])"
    by (simp add: is_zero_def is_nan_def)
  ultimately show ?thesis by simp
qed

theorem falsy_payload_gives_null_witness:
  "\<not> truthy (JNumber 0x8000000000000000) \<and>
   makeBlobFromPossible fake_platform (JNumber 0x8000000000000000) (lit ''image/png'') = (Inr None, [])"
proof -
  have h: "\<not> truthy (JNumber 0x8000000000000000)" by (simp add: is_zero_def)
  show ?thesis
    using h falsy_payload_gives_null[of "JNumber 0x8000000000000000" fake_platform "lit ''image/png''"]
    by blast
qed

section \<open>Properties of the detail view\<close>

lemma get_prop_twice:
  "get_prop data k1 = Inr v \<Longrightarrow> \<exists>v'. get_prop data k2 = Inr v'"
  by (cases data) auto

lemma settle_finished:
  assumes "k < length (loads w)" and "pending (loads w ! k) = Finished"
  shows "step P w (Settle k) = w"
proof -
  have same: "ld\<lparr>pending := Finished\<rparr> = ld" if "pending ld = Finished" for ld :: load
    using that by (cases ld) simp
  have "(loads w)[k := (loads w ! k)\<lparr>pending := Finished\<rparr>] = loads w"
    using same[OF assms(2)] by simp
  then show ?thesis using assms by (simp add: resume_load_def)
qed

lemma settle_kv_miss:
  assumes "k < length (loads w)" "pending (loads w ! k) = AwaitKv key"
    and "kv_get P key = Inr v" "\<not> truthy v"
  shows "step P w (Settle k) =
     (if mounted (loads w ! k) then setError (Some (lit ''Resume not found in kv.'')) w else w)
       \<lparr>loads := (loads w)[k := (loads w ! k)\<lparr>pending := Finished\<rparr>]\<rparr>"
  using assms
  by (simp add: resume_load_def after_kv_def give_up_def setError_def)

lemma settle_resume_ok:
  assumes "k < length (loads w)" and "pending (loads w ! k) = AwaitResume data path"
    and "mounted (loads w ! k)"
    and "fs_read P path = Inr raw"
    and "makeBlobFromPossible P raw (lit ''application/pdf'') = (Inr (Some b), ds)"
    and "get_prop data (lit ''imagePath'') = Inr ipath"
  shows "step P w (Settle k) =
     w\<lparr>view := (view w)\<lparr>resumeUrl := lit ''blob:'' @ url_suffix P (length (issued w))\<rparr>,
        createdUrls := createdUrls w @ [lit ''blob:'' @ url_suffix P (length (issued w))],
        issued := issued w @ [lit ''blob:'' @ url_suffix P (length (issued w))],
        console := console w @ ds,
        loads := (loads w)[k := (loads w ! k)
           \<lparr>pending := AwaitImage data (lit ''blob:'' @ url_suffix P (length (issued w))) ipath\<rparr>]\<rparr>"
proof -
  have t: "truthy raw"
  proof (rule ccontr)
    assume "\<not> truthy raw"
    then have "makeBlobFromPossible P raw (lit ''application/pdf'') = (Inr None, [])" by simp
    then show False using assms(5) by simp
  qed
  show ?thesis
    using assms(1-4,6) t
    by (simp add: resume_load_def after_resume_def assms(5) createObjectURL_def pushUrl_def
        setResumeUrl_def emit_def Let_def del: makeBlobFromPossible.simps)
qed

lemma settle_image_none:
  assumes "k < length (loads w)" and "pending (loads w ! k) = AwaitImage data u ipath"
    and "mounted (loads w ! k)"
    and "fs_read P ipath = Inr iraw"
    and "fst (makeBlobFromPossible P iraw (lit ''image/png'')) = Inr None"
    and "get_prop data (lit ''feedback'') = Inr fb"
  shows "\<exists>ds. step P w (Settle k) =
     w\<lparr>view := (view w)\<lparr>feedback := or_else fb JNull, error := None\<rparr>,
        console := console w @ ds,
        loads := (loads w)[k := (loads w ! k)\<lparr>pending := Finished\<rparr>]\<rparr>"
proof (cases "truthy iraw")
  case False
  then show ?thesis
    using assms(1-4,6)
    by (simp add: resume_load_def after_image_def finish_load_def emit_def setError_def
        setFeedback_def Let_def del: makeBlobFromPossible.simps) blast
next
  case True
  have "fst (makeBlobFromPossible P iraw (lit ''image/jpeg'')) = Inr None"
    using assms(5) null_iff[of P iraw "lit ''image/png''"] null_iff[of P iraw "lit ''image/jpeg''"]
    by blast
  then obtain d1 d2 where
    "makeBlobFromPossible P iraw (lit ''image/png'') = (Inr None, d1)"
    "makeBlobFromPossible P iraw (lit ''image/jpeg'') = (Inr None, d2)"
    using assms(5) by (metis prod.collapse)
  then have ib: "image_blob P iraw = (Inr None, d1 @ d2)"
    by (simp add: image_blob_def del: makeBlobFromPossible.simps)
  show ?thesis
    using assms(1-4,6) True
    by (simp add: resume_load_def after_image_def ib finish_load_def emit_def setError_def
        setFeedback_def Let_def del: makeBlobFromPossible.simps) blast
qed

subsection \<open>A record that is not in the key-value store\<close>

text \<open>
  Claim C8: the load of a run of the effect waits for \<^verbatim>\<open>kv.get\<close>, and the store answers
  \<^verbatim>\<open>null\<close> (or any other falsy value). While the run has not been cleaned up, that is
  while the view still asks for this id, the error state becomes exactly
  \<^verbatim>\<open>Resume not found in kv.\<close>; after the cleanup the state of the view is left alone.
  In both cases the load creates no object URL: none is issued, none is recorded, and the
  load has finished, so that a further step of it changes nothing.
\<close>

theorem kv_miss_reports_not_found:
  assumes "k < length (loads w)" and "pending (loads w ! k) = AwaitKv key"
    and "kv_get P key = Inr v" and "\<not> truthy v"
  shows "(mounted (loads w ! k) \<longrightarrow>
            error (view (step P w (Settle k))) = Some (lit ''Resume not found in kv.''))
         \<and> (\<not> mounted (loads w ! k) \<longrightarrow> view (step P w (Settle k)) = view w)
         \<and> issued (step P w (Settle k)) = issued w
         \<and> createdUrls (step P w (Settle k)) = createdUrls w
         \<and> pending (loads (step P w (Settle k)) ! k) = Finished
         \<and> step P (step P w (Settle k)) (Settle k) = step P w (Settle k)"
proof -
  define w' where "w' = step P w (Settle k)"
  have eq: "w' = (if mounted (loads w ! k) then setError (Some (lit ''Resume not found in kv.'')) w else w)
       \<lparr>loads := (loads w)[k := (loads w ! k)\<lparr>pending := Finished\<rparr>]\<rparr>"
    unfolding w'_def using assms by (rule settle_kv_miss)
  have fin: "pending (loads w' ! k) = Finished" and len: "k < length (loads w')"
    using assms(1) by (simp_all add: eq setError_def)
  have again: "step P w' (Settle k) = w'"
    using len fin by (rule settle_finished)
  have "(mounted (loads w ! k) \<longrightarrow> error (view w') = Some (lit ''Resume not found in kv.''))
         \<and> (\<not> mounted (loads w ! k) \<longrightarrow> view w' = view w)
         \<and> issued w' = issued w \<and> createdUrls w' = createdUrls w"
    by (simp add: eq setError_def)
  then show ?thesis using fin again unfolding w'_def by blast
qed

theorem kv_miss_reports_not_found_witness:
  "0 < length (loads (step fake_platform initial_world (Effect (Some (lit ''7'')))))
   \<and> pending (loads (step fake_platform initial_world (Effect (Some (lit ''7'')))) ! 0)
        = AwaitKv (lit ''resume:7'')
   \<and> kv_get fake_platform (lit ''resume:7'') = Inr JNull
   \<and> \<not> truthy JNull
   \<and> mounted (loads (step fake_platform initial_world (Effect (Some (lit ''7'')))) ! 0)
   \<and> error (view (run fake_platform initial_world [Effect (Some (lit ''7'')), Settle 0]))
        = Some (lit ''Resume not found in kv.'')
   \<and> issued (run fake_platform initial_world [Effect (Some (lit ''7'')), Settle 0]) = []"
proof -
  let ?w = "step fake_platform initial_world (Effect (Some (lit ''7'')))"
  have h1: "0 < length (loads ?w)" by (simp add: initial_world_def)
  have h2: "pending (loads ?w ! 0) = AwaitKv (lit ''resume:7'')"
    by (simp add: initial_world_def resume_key_def lit_def)
  have h3: "kv_get fake_platform (lit ''resume:7'') = Inr JNull"
    by (simp add: fake_platform_def lit_def)
  have h4: "\<not> truthy JNull" by simp
  have h5: "mounted (loads ?w ! 0)" by (simp add: initial_world_def)
  have h6: "issued ?w = []" by (simp add: initial_world_def)
  have r: "run fake_platform initial_world [Effect (Some (lit ''7'')), Settle 0]
      = step fake_platform ?w (Settle 0)"
    by (simp add: run_def)
  show ?thesis
    unfolding r
    using h1 h2 h3 h4 h5 h6 kv_miss_reports_not_found[OF h1 h2 h3 h4]
    by simp
qed

subsection \<open>An image that cannot be shown\<close>

text \<open>
  Claim C3, as stated, fails on the link to the PDF. For resume 2 the record is found, the
  PDF is read and normalised and gets its URL, and the read of the image returns
  \<^verbatim>\<open>null\<close>. The feedback sections are rendered and no error is shown, but the link is not:
  it is drawn around the preview image under the guard \<^verbatim>\<open>imageUrl && resumeUrl\<close>.
\<close>

theorem image_failure_counterexample:
  "resumeUrl (view (run fake_platform initial_world
       [Effect (Some (lit ''2'')), Settle 0, Settle 0, Settle 0])) = lit ''blob:x''
   \<and> render (view (run fake_platform initial_world
       [Effect (Some (lit ''2'')), Settle 0, Settle 0, Settle 0]))
     = Inr \<lparr>preview = None, error_line = None,
            review = Some (JObject [(lit ''ATS'',
                             JObject [(lit ''score'', JNumber 0x4054000000000000),
                                      (lit ''tips'', JArray [JString (lit ''Add metrics'')])])],
                           JNumber 0x4054000000000000,
                           JArray [JString (lit ''Add metrics'')])\<rparr>"
  by code_simp

text \<open>
  Claim C3, amended: a run of the effect that has not been cleaned up waits for the PDF; the
  PDF is read and normalised, and the read of the image returns a payload that is absent or
  cannot be normalised. If no image was shown before, then after the load \<^verbatim>\<open>resumeUrl\<close> is
  the URL of the PDF, the only URL created, \<^verbatim>\<open>imageUrl\<close> is still empty, the error state is
  \<^verbatim>\<open>null\<close> and the feedback is that of the record. The page has no preview, hence no link
  to the PDF either, and no error line. When the record has feedback with an ATS section
  the page shows the feedback sections, with the score and the tips of that section (0 and
  no tips where they are missing); when the record has no feedback it shows the scanning
  animation.
\<close>

theorem image_failure_keeps_feedback:
  assumes "k < length (loads w)" and "pending (loads w ! k) = AwaitResume data path"
    and "mounted (loads w ! k)"
    and "fs_read P path = Inr raw"
    and "makeBlobFromPossible P raw (lit ''application/pdf'') = (Inr (Some b), ds)"
    and "get_prop data (lit ''imagePath'') = Inr ipath"
    and "fs_read P ipath = Inr iraw"
    and "fst (makeBlobFromPossible P iraw (lit ''image/png'')) = Inr None"
    and "imageUrl (view w) = []"
    and "get_prop data (lit ''feedback'') = Inr fb"
  shows "resumeUrl (view (step P (step P w (Settle k)) (Settle k)))
         = lit ''blob:'' @ url_suffix P (length (issued w))
     \<and> imageUrl (view (step P (step P w (Settle k)) (Settle k))) = []
     \<and> feedback (view (step P (step P w (Settle k)) (Settle k))) = or_else fb JNull
     \<and> error (view (step P (step P w (Settle k)) (Settle k))) = None
     \<and> issued (step P (step P w (Settle k)) (Settle k))
         = issued w @ [lit ''blob:'' @ url_suffix P (length (issued w))]
     \<and> (truthy fb \<and> get_prop fb (lit ''ATS'') = Inr ats
          \<and> get_prop ats (lit ''score'') = Inr score \<and> get_prop ats (lit ''tips'') = Inr tips \<longrightarrow>
        render (view (step P (step P w (Settle k)) (Settle k)))
          = Inr \<lparr>preview = None, error_line = None,
                 review = Some (fb, or_else score (JNumber 0), or_else tips (JArray []))\<rparr>)
     \<and> (\<not> truthy fb \<longrightarrow>
        render (view (step P (step P w (Settle k)) (Settle k)))
          = Inr \<lparr>preview = None, error_line = None, review = None\<rparr>)"
proof -
  define u where "u = lit ''blob:'' @ url_suffix P (length (issued w))"
  define w1 where "w1 = step P w (Settle k)"
  define w2 where "w2 = step P w1 (Settle k)"
  note fb = assms(10)
  have w1: "w1 = w\<lparr>view := (view w)\<lparr>resumeUrl := u\<rparr>,
        createdUrls := createdUrls w @ [u], issued := issued w @ [u], console := console w @ ds,
        loads := (loads w)[k := (loads w ! k)\<lparr>pending := AwaitImage data u ipath\<rparr>]\<rparr>"
    unfolding w1_def u_def using assms(1-6) by (rule settle_resume_ok)
  have a1: "k < length (loads w1)" and a2: "pending (loads w1 ! k) = AwaitImage data u ipath"
    and a3: "mounted (loads w1 ! k)"
    using assms(1,3) by (simp_all add: w1)
  obtain ds' where w2: "w2 = w1\<lparr>view := (view w1)\<lparr>feedback := or_else fb JNull, error := None\<rparr>,
        console := console w1 @ ds',
        loads := (loads w1)[k := (loads w1 ! k)\<lparr>pending := Finished\<rparr>]\<rparr>"
    unfolding w2_def using settle_image_none[OF a1 a2 a3 assms(7,8) fb] by blast
  have v: "view w2 = \<lparr>imageUrl = [], resumeUrl = u, feedback = or_else fb JNull, error = None\<rparr>"
    using assms(9) by (simp add: w2 w1)
  have shown: "truthy fb \<and> get_prop fb (lit ''ATS'') = Inr ats
          \<and> get_prop ats (lit ''score'') = Inr score \<and> get_prop ats (lit ''tips'') = Inr tips \<longrightarrow>
        render (view w2) = Inr \<lparr>preview = None, error_line = None,
                 review = Some (fb, or_else score (JNumber 0), or_else tips (JArray []))\<rparr>"
  proof
    assume h: "truthy fb \<and> get_prop fb (lit ''ATS'') = Inr ats
          \<and> get_prop ats (lit ''score'') = Inr score \<and> get_prop ats (lit ''tips'') = Inr tips"
    then have "or_else fb JNull = fb" by (simp add: or_else_def)
    moreover have "render_review fb
        = Inr (Some (fb, or_else score (JNumber 0), or_else tips (JArray [])))"
      using h by (simp add: render_review_def)
    ultimately show "render (view w2) = Inr \<lparr>preview = None, error_line = None,
                 review = Some (fb, or_else score (JNumber 0), or_else tips (JArray []))\<rparr>"
      by (simp add: v render_def)
  qed
  have scanning: "\<not> truthy fb \<longrightarrow>
        render (view w2) = Inr \<lparr>preview = None, error_line = None, review = None\<rparr>"
  proof
    assume "\<not> truthy fb"
    then have "or_else fb JNull = JNull" by (simp add: or_else_def)
    moreover have "render_review JNull = Inr None" by (simp add: render_review_def)
    ultimately show "render (view w2) = Inr \<lparr>preview = None, error_line = None, review = None\<rparr>"
      by (simp add: v render_def)
  qed
  have "issued w2 = issued w @ [u]" by (simp add: w2 w1)
  then show ?thesis
    using v shown scanning unfolding w2_def w1_def u_def by simp
qed

theorem image_failure_keeps_feedback_witness:
  "0 < length (loads waiting_for_pdf)
   \<and> pending (loads waiting_for_pdf ! 0)
        = AwaitResume (stored_record ''r/2.png'') (JString (lit ''r/1.pdf''))
   \<and> mounted (loads waiting_for_pdf ! 0)
   \<and> fs_read fake_platform (JString (lit ''r/1.pdf'')) = Inr (JArrayBuffer [0x25, 0x50, 0x44, 0x46])
   \<and> makeBlobFromPossible fake_platform (JArrayBuffer [0x25, 0x50, 0x44, 0x46]) (lit ''application/pdf'')
        = (Inr (Some \<lparr>content = [0x25, 0x50, 0x44, 0x46], type = lit ''application/pdf''\<rparr>), [])
   \<and> get_prop (stored_record ''r/2.png'') (lit ''imagePath'') = Inr (JString (lit ''r/2.png''))
   \<and> fs_read fake_platform (JString (lit ''r/2.png'')) = Inr JNull
   \<and> fst (makeBlobFromPossible fake_platform JNull (lit ''image/png'')) = Inr None
   \<and> imageUrl (view waiting_for_pdf) = []
   \<and> get_prop (stored_record ''r/2.png'') (lit ''feedback'')
        = Inr (JObject [(lit ''ATS'',
                 JObject [(lit ''score'', JNumber 0x4054000000000000),
                          (lit ''tips'', JArray [JString (lit ''Add metrics'')])])])
   \<and> truthy (JObject [(lit ''ATS'',
                 JObject [(lit ''score'', JNumber 0x4054000000000000),
                          (lit ''tips'', JArray [JString (lit ''Add metrics'')])])])
   \<and> get_prop (JObject [(lit ''ATS'',
                 JObject [(lit ''score'', JNumber 0x4054000000000000),
                          (lit ''tips'', JArray [JString (lit ''Add metrics'')])])]) (lit ''ATS'')
        = Inr (JObject [(lit ''score'', JNumber 0x4054000000000000),
                        (lit ''tips'', JArray [JString (lit ''Add metrics'')])])
   \<and> get_prop (JObject [(lit ''score'', JNumber 0x4054000000000000),
                        (lit ''tips'', JArray [JString (lit ''Add metrics'')])]) (lit ''score'')
        = Inr (JNumber 0x4054000000000000)
   \<and> get_prop (JObject [(lit ''score'', JNumber 0x4054000000000000),
                        (lit ''tips'', JArray [JString (lit ''Add metrics'')])]) (lit ''tips'')
        = Inr (JArray [JString (lit ''Add metrics'')])
   \<and> resumeUrl (view (step fake_platform (step fake_platform waiting_for_pdf (Settle 0)) (Settle 0)))
        = lit ''blob:x''
   \<and> imageUrl (view (step fake_platform (step fake_platform waiting_for_pdf (Settle 0)) (Settle 0))) = []
   \<and> error (view (step fake_platform (step fake_platform waiting_for_pdf (Settle 0)) (Settle 0))) = None
   \<and> feedback (view (step fake_platform (step fake_platform waiting_for_pdf (Settle 0)) (Settle 0)))
        = JObject [(lit ''ATS'',
                 JObject [(lit ''score'', JNumber 0x4054000000000000),
                          (lit ''tips'', JArray [JString (lit ''Add metrics'')])])]
   \<and> issued (step fake_platform (step fake_platform waiting_for_pdf (Settle 0)) (Settle 0))
        = [lit ''blob:x'']
   \<and> render (view (step fake_platform (step fake_platform waiting_for_pdf (Settle 0)) (Settle 0)))
        = Inr \<lparr>preview = None, error_line = None,
               review = Some (JObject [(lit ''ATS'',
                                JObject [(lit ''score'', JNumber 0x4054000000000000),
                                         (lit ''tips'', JArray [JString (lit ''Add metrics'')])])],
                              JNumber 0x4054000000000000,
                              JArray [JString (lit ''Add metrics'')])\<rparr>"
proof -
  define fbv where "fbv = JObject [(lit ''ATS'',
                 JObject [(lit ''score'', JNumber 0x4054000000000000),
                          (lit ''tips'', JArray [JString (lit ''Add metrics'')])])]"
  define atsv where "atsv = JObject [(lit ''score'', JNumber 0x4054000000000000),
                          (lit ''tips'', JArray [JString (lit ''Add metrics'')])]"
  have h1: "0 < length (loads waiting_for_pdf)" by code_simp
  have h2: "pending (loads waiting_for_pdf ! 0)
        = AwaitResume (stored_record ''r/2.png'') (JString (lit ''r/1.pdf''))" by code_simp
  have h3: "mounted (loads waiting_for_pdf ! 0)" by code_simp
  have h4: "fs_read fake_platform (JString (lit ''r/1.pdf'')) = Inr (JArrayBuffer [0x25, 0x50, 0x44, 0x46])"
    by code_simp
  have h5: "makeBlobFromPossible fake_platform (JArrayBuffer [0x25, 0x50, 0x44, 0x46]) (lit ''application/pdf'')
        = (Inr (Some \<lparr>content = [0x25, 0x50, 0x44, 0x46], type = lit ''application/pdf''\<rparr>), [])"
    by code_simp
  have h6: "get_prop (stored_record ''r/2.png'') (lit ''imagePath'') = Inr (JString (lit ''r/2.png''))"
    by code_simp
  have h7: "fs_read fake_platform (JString (lit ''r/2.png'')) = Inr JNull" by code_simp
  have h8: "fst (makeBlobFromPossible fake_platform JNull (lit ''image/png'')) = Inr None" by simp
  have h9: "imageUrl (view waiting_for_pdf) = []" by code_simp
  have h10: "get_prop (stored_record ''r/2.png'') (lit ''feedback'') = Inr fbv"
    unfolding fbv_def by code_simp
  have h11: "truthy fbv" by (simp add: fbv_def)
  have h12: "get_prop fbv (lit ''ATS'') = Inr atsv" unfolding fbv_def atsv_def by code_simp
  have h13: "get_prop atsv (lit ''score'') = Inr (JNumber 0x4054000000000000)"
    unfolding atsv_def by code_simp
  have h14: "get_prop atsv (lit ''tips'') = Inr (JArray [JString (lit ''Add metrics'')])"
    unfolding atsv_def by code_simp
  have i0: "issued waiting_for_pdf = []" by code_simp
  have u0: "url_suffix fake_platform 0 = lit ''x''" by code_simp
  have s1: "or_else (JNumber 0x4054000000000000) (JNumber 0) = JNumber 0x4054000000000000"
    by (simp add: or_else_def is_zero_def is_nan_def)
  have s2: "or_else (JArray [JString (lit ''Add metrics'')]) (JArray [])
      = JArray [JString (lit ''Add metrics'')]"
    by (simp add: or_else_def)
  have s3: "or_else fbv JNull = fbv" using h11 by (simp add: or_else_def)
  have b: "lit ''blob:'' @ lit ''x'' = lit ''blob:x''" by (simp add: lit_def)
  show ?thesis
    using h1 h2 h3 h4 h5 h6 h7 h8 h9 h10 h11 h12 h13 h14
      image_failure_keeps_feedback[OF h1 h2 h3 h4 h5 h6 h7 h8 h9 h10,
        of atsv "JNumber 0x4054000000000000" "JArray [JString (lit ''Add metrics'')]"]
    unfolding i0 u0 s1 s2 s3 list.size b append_Nil
    unfolding fbv_def atsv_def
    by blast
qed

subsection \<open>Object URLs\<close>

text \<open>
  Every step issues and records the same URLs, and the cleanup moves the recorded URLs to
  the revoked ones, dropping those whose revocation throws.
\<close>

lemma catch_load_handles:
  "catch_load ld e w = (p, w') \<Longrightarrow>
   issued w' = issued w \<and> createdUrls w' = createdUrls w \<and> revoked w' = revoked w"
  by (auto simp: catch_load_def emit_def setError_def Let_def split: if_splits)

lemma give_up_handles:
  "give_up ld msg w = (p, w') \<Longrightarrow>
   issued w' = issued w \<and> createdUrls w' = createdUrls w \<and> revoked w' = revoked w"
  by (auto simp: give_up_def setError_def split: if_splits)

lemma finish_load_handles:
  "finish_load ld data u w = (p, w') \<Longrightarrow>
   issued w' = issued w \<and> createdUrls w' = createdUrls w \<and> revoked w' = revoked w"
  by (auto simp: finish_load_def emit_def setError_def setFeedback_def Let_def
      dest!: catch_load_handles split: sum.splits if_splits)

lemma after_kv_handles:
  "after_kv P ld r w = (p, w') \<Longrightarrow>
   issued w' = issued w \<and> createdUrls w' = createdUrls w \<and> revoked w' = revoked w"
  by (auto simp: after_kv_def dest!: catch_load_handles give_up_handles
      split: sum.splits if_splits)

lemma after_resume_handles:
  "after_resume P ld data r w = (p, w') \<Longrightarrow>
   \<exists>new. issued w' = issued w @ new \<and> createdUrls w' = createdUrls w @ new
     \<and> revoked w' = revoked w"
  by (auto simp: after_resume_def createObjectURL_def pushUrl_def setResumeUrl_def emit_def Let_def
      simp del: makeBlobFromPossible.simps
      dest!: catch_load_handles give_up_handles
      split: sum.splits if_splits prod.splits option.splits)

lemma after_image_handles:
  "after_image P ld data u r w = (p, w') \<Longrightarrow>
   \<exists>new. issued w' = issued w @ new \<and> createdUrls w' = createdUrls w @ new
     \<and> revoked w' = revoked w"
  by (auto simp: after_image_def createObjectURL_def pushUrl_def setImageUrl_def emit_def Let_def
      simp del: makeBlobFromPossible.simps
      dest!: catch_load_handles finish_load_handles
      split: sum.splits if_splits prod.splits option.splits)

lemma resume_load_handles:
  "resume_load P ld w = (p, w') \<Longrightarrow>
   \<exists>new. issued w' = issued w @ new \<and> createdUrls w' = createdUrls w @ new
     \<and> revoked w' = revoked w"
  by (auto simp: resume_load_def
      dest: after_kv_handles after_resume_handles after_image_handles
      split: pending.splits)

lemma revoke_all_handles:
  "issued (revoke_all P us w) = issued w \<and> createdUrls (revoke_all P us w) = createdUrls w
   \<and> revoked (revoke_all P us w) = revoked w @ filter (\<lambda>u. revoke_error P u = None) us
   \<and> view (revoke_all P us w) = view w \<and> loads (revoke_all P us w) = loads w"
  by (induction us arbitrary: w) (auto simp: revokeObjectURL_def split: option.splits)

lemma cleanup_revokes:
  "k < length (loads w) \<Longrightarrow>
   createdUrls (step P w (Cleanup k)) = []
   \<and> revoked (step P w (Cleanup k)) = revoked w @ filter (\<lambda>u. revoke_error P u = None) (createdUrls w)
   \<and> issued (step P w (Cleanup k)) = issued w
   \<and> view (step P w (Cleanup k)) = view w
   \<and> \<not> mounted (loads (step P w (Cleanup k)) ! k)"
  by (simp add: revoke_all_handles Let_def)

text \<open>
  When revoking never throws, every URL issued so far is either revoked, once, or still
  recorded in \<^verbatim>\<open>createdUrls\<close>; no URL is revoked that was not issued.
\<close>

lemma step_accounts:
  assumes "\<forall>u. revoke_error P u = None"
    and "mset (issued w) = mset (revoked w) + mset (createdUrls w)"
  shows "mset (issued (step P w ev)) = mset (revoked (step P w ev)) + mset (createdUrls (step P w ev))"
proof (cases ev)
  case (Effect rid)
  then show ?thesis using assms(2) by simp
next
  case (Settle k)
  show ?thesis
  proof (cases "k < length (loads w)")
    case False
    then show ?thesis using Settle assms(2) by simp
  next
    case True
    obtain p w' where r: "resume_load P (loads w ! k) w = (p, w')" by (cases "resume_load P (loads w ! k) w")
    then obtain new where "issued w' = issued w @ new" "createdUrls w' = createdUrls w @ new"
      "revoked w' = revoked w"
      using resume_load_handles by blast
    then show ?thesis using Settle True r assms(2) by (simp add: Let_def)
  qed
next
  case (Cleanup k)
  show ?thesis
  proof (cases "k < length (loads w)")
    case False
    then show ?thesis using Cleanup assms(2) by simp
  next
    case True
    then show ?thesis using Cleanup assms cleanup_revokes[OF True, of P] by simp
  qed
qed

lemma run_accounts:
  assumes "\<forall>u. revoke_error P u = None"
  shows "mset (issued (run P initial_world evs))
     = mset (revoked (run P initial_world evs)) + mset (createdUrls (run P initial_world evs))"
proof (induction evs rule: rev_induct)
  case Nil
  show ?case by (simp add: run_def initial_world_def)
next
  case (snoc ev evs)
  have "run P initial_world (evs @ [ev]) = step P (run P initial_world evs) ev"
    by (simp add: run_def)
  then show ?case using step_accounts[OF assms snoc.IH] by simp
qed

text \<open>
  A load that completes before the cleanup has its two URLs revoked once each, and a
  registry that throws on every revocation does not make the cleanup fail.
\<close>

lemma completed_load_revoked_once:
  "issued (run fake_platform initial_world
       [Effect (Some (lit ''1'')), Settle 0, Settle 0, Settle 0, Cleanup 0])
     = [lit ''blob:x'', lit ''blob:xx'']
   \<and> revoked (run fake_platform initial_world
       [Effect (Some (lit ''1'')), Settle 0, Settle 0, Settle 0, Cleanup 0])
     = [lit ''blob:x'', lit ''blob:xx'']
   \<and> createdUrls (run fake_platform initial_world
       [Effect (Some (lit ''1'')), Settle 0, Settle 0, Settle 0, Cleanup 0]) = []"
  by code_simp

lemma revocation_errors_swallowed:
  "createdUrls (run throwing_platform initial_world
       [Effect (Some (lit ''1'')), Settle 0, Settle 0, Settle 0, Cleanup 0]) = []
   \<and> revoked (run throwing_platform initial_world
       [Effect (Some (lit ''1'')), Settle 0, Settle 0, Settle 0, Cleanup 0]) = []
   \<and> error (view (run throwing_platform initial_world
       [Effect (Some (lit ''1'')), Settle 0, Settle 0, Settle 0, Cleanup 0])) = None"
  by code_simp

text \<open>
  Claim C5 says that every object URL created during the view's lifetime, also by a load
  still in flight when the view is unmounted, is revoked exactly once. The code creates and
  records URLs without looking at \<^verbatim>\<open>mounted\<close>: when the view of resume 1 is unmounted
  while the PDF is being read, the load goes on after the cleanup, issues the URLs of the
  PDF and of the image and records them in \<^verbatim>\<open>createdUrls\<close>, where no cleanup will find
  them. The load has finished, two URLs are issued, none is revoked.
\<close>

theorem handle_of_load_in_flight_leaks:
  "issued (run fake_platform initial_world
       [Effect (Some (lit ''1'')), Settle 0, Cleanup 0, Settle 0, Settle 0])
     = [lit ''blob:x'', lit ''blob:xx'']
   \<and> revoked (run fake_platform initial_world
       [Effect (Some (lit ''1'')), Settle 0, Cleanup 0, Settle 0, Settle 0]) = []
   \<and> createdUrls (run fake_platform initial_world
       [Effect (Some (lit ''1'')), Settle 0, Cleanup 0, Settle 0, Settle 0])
     = [lit ''blob:x'', lit ''blob:xx'']
   \<and> map pending (loads (run fake_platform initial_world
       [Effect (Some (lit ''1'')), Settle 0, Cleanup 0, Settle 0, Settle 0])) = [Finished]
   \<and> map mounted (loads (run fake_platform initial_world
       [Effect (Some (lit ''1'')), Settle 0, Cleanup 0, Settle 0, Settle 0])) = [False]"
  by code_simp

end
